theory Spec2Isabelle
  imports Complex_Main
begin

section \<open>Python values, floats and exceptions\<close>

text \<open>
  The comparison engine of \<^verbatim>\<open>dfcompy/core.py\<close> works on the cells of two pandas
  DataFrames. A cell is a number, a string or Python's \<^verbatim>\<open>None\<close>. A number cell
  \<open>Num (Fin x)\<close> is an integer or a finite float of exact value \<open>x\<close>; \<open>Num PInf\<close>,
  \<open>Num NInf\<close> and \<open>Num NaN\<close> are the floats \<^verbatim>\<open>inf\<close>, \<^verbatim>\<open>-inf\<close> and \<^verbatim>\<open>nan\<close>.

  Every exception the code can raise is a value of \<open>pyerror\<close>. \<open>NonScalarAccess\<close> marks
  the one place where the model does not follow pandas further: when
  \<^verbatim>\<open>DataFrame.at\<close> finds more than one cell under a label (a row label that is common
  to both tables and repeated in one of them, or a repeated column name), pandas hands
  back a Series instead of a scalar, and what the comparator and the assignment to the
  comparison frame then do is left to pandas. The model stops at the lookup with this
  error. The theorems below either assume unique keys and column names, or compare no
  cell, or speak of the result properties of an arbitrary comparator.
\<close>

datatype pyerror =
  AssertionError | KeyError | ValueError | TypeError | AttributeError
  | ZeroDivisionError | OverflowError | NonScalarAccess

datatype pyfloat = Fin real | PInf | NInf | NaN

datatype cell = Num pyfloat | Str string | PyNone

text \<open>
  Floats are IEEE 754 binary64. \<open>binary64 x\<close> is the float nearest to the real \<open>x\<close>,
  ties to the even significand. In the binade of \<open>x\<close>, from \<open>2 ^ e\<close> up to \<open>2 ^ (e + 1)\<close>
  with \<open>e\<close> at least -1022 (below that the floats are subnormal), the floats are the
  multiples of \<open>ulp x = 2 ^ (e - 52)\<close>; a rounded magnitude of \<open>2 ^ 1024\<close> or more has
  overflowed to an infinity. The two zeros are not told apart: no operation of the
  code does.
\<close>

definition binade :: "real \<Rightarrow> int" where
  "binade x = max (- 1022) \<lfloor>log 2 \<bar>x\<bar>\<rfloor>"

definition ulp :: "real \<Rightarrow> real" where
  "ulp x = 2 powr (of_int (binade x) - 52)"

definition round_half_even :: "real \<Rightarrow> int" where
  "round_half_even y =
     (let f = \<lfloor>y\<rfloor>; d = y - of_int f
      in if d < 1 / 2 then f else if 1 / 2 < d then f + 1 else if even f then f else f + 1)"

definition binary64 :: "real \<Rightarrow> pyfloat" where
  "binary64 x =
     (if x = 0 then Fin 0
      else let q = of_int (round_half_even (x / ulp x)) * ulp x
           in if 2 ^ 1024 \<le> q then PInf else if q \<le> - (2 ^ 1024) then NInf else Fin q)"

text \<open>
  Float subtraction, \<^verbatim>\<open>abs\<close>, \<^verbatim>\<open><\<close> and \<^verbatim>\<open>==\<close>. The exact difference of two
  finite floats is rounded; infinities of one sign cancel to \<^verbatim>\<open>nan\<close>; every comparison
  with \<^verbatim>\<open>nan\<close> is False.
\<close>

fun fsub :: "pyfloat \<Rightarrow> pyfloat \<Rightarrow> pyfloat" where
  "fsub (Fin x) (Fin y) = binary64 (x - y)"
| "fsub (Fin x) PInf = NInf"
| "fsub (Fin x) NInf = PInf"
| "fsub PInf (Fin y) = PInf"
| "fsub PInf NInf = PInf"
| "fsub NInf (Fin y) = NInf"
| "fsub NInf PInf = NInf"
| "fsub _ _ = NaN"

fun fabs :: "pyfloat \<Rightarrow> pyfloat" where
  "fabs (Fin x) = Fin \<bar>x\<bar>"
| "fabs PInf = PInf"
| "fabs NInf = PInf"
| "fabs NaN = NaN"

fun flt :: "pyfloat \<Rightarrow> pyfloat \<Rightarrow> bool" where
  "flt (Fin x) (Fin y) = (x < y)"
| "flt (Fin x) PInf = True"
| "flt NInf (Fin y) = True"
| "flt NInf PInf = True"
| "flt _ _ = False"

fun feq :: "pyfloat \<Rightarrow> pyfloat \<Rightarrow> bool" where
  "feq (Fin x) (Fin y) = (x = y)"
| "feq PInf PInf = True"
| "feq NInf NInf = True"
| "feq _ _ = False"

text \<open>
  Python's \<^verbatim>\<open>max(a, b)\<close> keeps \<open>a\<close> unless \<^verbatim>\<open>b > a\<close>, so with a \<^verbatim>\<open>nan\<close> the
  first argument wins. Float division raises ZeroDivisionError whenever the divisor is
  zero, whatever the dividend; otherwise the exact quotient is rounded.
\<close>

definition fmax :: "pyfloat \<Rightarrow> pyfloat \<Rightarrow> pyfloat" where
  "fmax a b = (if flt a b then b else a)"

fun fquot :: "pyfloat \<Rightarrow> pyfloat \<Rightarrow> pyfloat" where
  "fquot (Fin x) (Fin y) = binary64 (x / y)"
| "fquot (Fin x) PInf = Fin 0"
| "fquot (Fin x) NInf = Fin 0"
| "fquot PInf (Fin y) = (if 0 < y then PInf else NInf)"
| "fquot NInf (Fin y) = (if 0 < y then NInf else PInf)"
| "fquot _ _ = NaN"

definition fdiv :: "pyfloat \<Rightarrow> pyfloat \<Rightarrow> pyerror + pyfloat" where
  "fdiv a b = (if b = Fin 0 then Inl ZeroDivisionError else Inr (fquot a b))"

text \<open>
  \<^verbatim>\<open>float(x)\<close>: a float converts to itself, an integer to the nearest float, with
  OverflowError when that is beyond the largest float; a string is parsed, and
  \<^verbatim>\<open>None\<close> raises TypeError. The parser of Python's \<^verbatim>\<open>float\<close> on strings is not part
  of the repository; it is the parameter \<open>pf\<close>, which answers \<open>None\<close> for a string that
  does not denote a number (Python raises ValueError there).
\<close>

type_synonym parser = "string \<Rightarrow> pyfloat option"

fun py_float :: "parser \<Rightarrow> cell \<Rightarrow> pyerror + pyfloat" where
  "py_float pf (Num (Fin x)) =
     (case binary64 x of Fin y \<Rightarrow> Inr (Fin y) | PInf \<Rightarrow> Inl OverflowError
      | NInf \<Rightarrow> Inl OverflowError | NaN \<Rightarrow> Inl OverflowError)"
| "py_float pf (Num f) = Inr f"
| "py_float pf (Str s) = (case pf s of None \<Rightarrow> Inl ValueError | Some f \<Rightarrow> Inr f)"
| "py_float pf PyNone = Inl TypeError"

section \<open>NumberComparator\<close>

definition absolutely_compare :: "pyfloat \<Rightarrow> pyfloat \<Rightarrow> real \<Rightarrow> bool" where
  "absolutely_compare one_value other_value tolerance =
     flt (fabs (fsub one_value other_value)) (Fin tolerance)"

definition relatively_compare :: "pyfloat \<Rightarrow> pyfloat \<Rightarrow> real \<Rightarrow> pyerror + bool" where
  "relatively_compare one_value other_value tolerance =
     (if feq other_value one_value \<and> feq one_value (Fin 0) then Inr True
      else (case fdiv (fsub one_value other_value)
                      (fmax (fabs one_value) (fabs other_value)) of
              Inl e \<Rightarrow> Inl e
            | Inr q \<Rightarrow> Inr (flt (fabs q) (Fin tolerance))))"

text \<open>\<^verbatim>\<open>NumberComparator.compare\<close>: any mode other than "relative" is absolute.\<close>

definition number_compare ::
  "parser \<Rightarrow> cell \<Rightarrow> cell \<Rightarrow> string \<Rightarrow> real \<Rightarrow> pyerror + bool" where
  "number_compare pf one other tol_mode tolerance =
     (case py_float pf one of
        Inl e \<Rightarrow> Inl e
      | Inr one_value \<Rightarrow>
          (case py_float pf other of
             Inl e \<Rightarrow> Inl e
           | Inr other_value \<Rightarrow>
               (if tol_mode = ''relative''
                then relatively_compare one_value other_value tolerance
                else Inr (absolutely_compare one_value other_value tolerance))))"

section \<open>StringComparator\<close>

text \<open>
  \<^verbatim>\<open>str.lower\<close>, here on ASCII letters only; a cell that is not a string has no such
  method. \<^verbatim>\<open>==\<close> compares cells of one kind by value and answers False across kinds
  and for \<^verbatim>\<open>nan\<close>.
\<close>

definition lower_char :: "char \<Rightarrow> char" where
  "lower_char c =
     (if 65 \<le> (of_char c :: nat) \<and> (of_char c :: nat) \<le> 90
      then char_of ((of_char c :: nat) + 32) else c)"

fun lower :: "cell \<Rightarrow> pyerror + string" where
  "lower (Str s) = Inr (map lower_char s)"
| "lower _ = Inl AttributeError"

fun py_eq :: "cell \<Rightarrow> cell \<Rightarrow> bool" where
  "py_eq (Num a) (Num b) = feq a b"
| "py_eq (Str s) (Str t) = (s = t)"
| "py_eq PyNone PyNone = True"
| "py_eq _ _ = False"

definition string_compare :: "cell \<Rightarrow> cell \<Rightarrow> bool \<Rightarrow> pyerror + bool" where
  "string_compare one other ignore_case =
     (if ignore_case then
        (case lower one of
           Inl e \<Rightarrow> Inl e
         | Inr a \<Rightarrow> (case lower other of Inl e \<Rightarrow> Inl e | Inr b \<Rightarrow> Inr (a = b)))
      else Inr (py_eq one other))"

section \<open>DataFrames\<close>

text \<open>
  A DataFrame is its list of column names and its list of rows; a row gives the cell of
  every column by name. Column names of a table are taken to be distinct, which is what
  lets a row be a function of the name. After \<^verbatim>\<open>set_index(on)[subset]\<close> a frame is
  the list of its rows in table order, each with its row label (the tuple of the key
  cells) and the selected cells, paired with their column names in the order of
  \<open>subset\<close>. Row labels and selected columns may repeat, as they may in pandas.
\<close>

record dataframe =
  columns :: "string list"
  rows :: "(string \<Rightarrow> cell) list"

type_synonym key = "cell list"
type_synonym frame = "(key \<times> (string \<times> cell) list) list"

definition index :: "frame \<Rightarrow> key list" where
  "index fr = map fst fr"

text \<open>
  \<^verbatim>\<open>df.set_index(on)[subset]\<close>: pandas raises when \<open>on\<close> is empty, when a key column
  is not a column of the table, and when a selected column is not among the columns that
  remain after the key columns have moved into the index.
\<close>

definition set_index_select :: "dataframe \<Rightarrow> string list \<Rightarrow> string list \<Rightarrow> pyerror + frame" where
  "set_index_select df on subset_cols =
     (if on = [] then Inl ValueError
      else if \<not> set on \<subseteq> set (columns df) then Inl KeyError
      else if \<not> set subset_cols \<subseteq> set (columns df) - set on then Inl KeyError
      else Inr (map (\<lambda>r. (map r on, map (\<lambda>c. (c, r c)) subset_cols)) (rows df)))"

text \<open>\<^verbatim>\<open>a.isin(b)\<close> on row labels, and \<^verbatim>\<open>x[mask]\<close> / \<^verbatim>\<open>x.loc[mask]\<close> with a boolean mask.\<close>

definition isin :: "key list \<Rightarrow> key list \<Rightarrow> bool list" where
  "isin xs ys = map (\<lambda>k. k \<in> set ys) xs"

definition loc_mask :: "'a list \<Rightarrow> bool list \<Rightarrow> 'a list" where
  "loc_mask xs m = map fst (filter snd (zip xs m))"

text \<open>
  \<^verbatim>\<open>fr.loc[labels]\<close> with a list of row labels: for each label in turn, the rows that
  carry it; KeyError when a label is not in the index.
\<close>

definition loc :: "frame \<Rightarrow> key list \<Rightarrow> pyerror + frame" where
  "loc fr labels =
     (if set labels \<subseteq> set (index fr)
      then Inr (concat (map (\<lambda>l. filter (\<lambda>(k, r). k = l) fr) labels))
      else Inl KeyError)"

text \<open>
  \<^verbatim>\<open>fr.at[idx, col]\<close> collects every cell under row label \<open>idx\<close> and column \<open>col\<close>;
  the lookup yields a scalar only when there is exactly one.
\<close>

definition df_at :: "frame \<Rightarrow> key \<Rightarrow> string \<Rightarrow> cell list" where
  "df_at fr idx col =
     concat (map (\<lambda>(k, r). if k = idx then map snd (filter (\<lambda>(c, v). c = col) r) else []) fr)"

fun scalar :: "cell list \<Rightarrow> pyerror + cell" where
  "scalar [] = Inl KeyError"
| "scalar [v] = Inr v"
| "scalar (v # w # vs) = Inl NonScalarAccess"

text \<open>
  \<^verbatim>\<open>fr[col].astype("float64")\<close> converts every cell of the column as \<^verbatim>\<open>float\<close> does,
  except that numpy turns \<^verbatim>\<open>None\<close> into \<^verbatim>\<open>nan\<close>.
\<close>

definition column_values :: "frame \<Rightarrow> string \<Rightarrow> cell list" where
  "column_values fr col = concat (map (\<lambda>(k, r). map snd (filter (\<lambda>(c, v). c = col) r)) fr)"

fun astype_float64 :: "parser \<Rightarrow> cell \<Rightarrow> pyerror + pyfloat" where
  "astype_float64 pf PyNone = Inr NaN"
| "astype_float64 pf v = py_float pf v"

text \<open>A loop that stops at the first exception.\<close>

fun traverse :: "('a \<Rightarrow> pyerror + 'b) \<Rightarrow> 'a list \<Rightarrow> pyerror + 'b list" where
  "traverse f [] = Inr []"
| "traverse f (x # xs) =
     (case f x of
        Inl e \<Rightarrow> Inl e
      | Inr y \<Rightarrow> (case traverse f xs of Inl e \<Rightarrow> Inl e | Inr ys \<Rightarrow> Inr (y # ys)))"

section \<open>DataFrameComparator\<close>

text \<open>
  \<^verbatim>\<open>_check_subset\<close> reads the column names only. \<open>subset\<close> is \<^verbatim>\<open>self.subset\<close>, which
  \<^verbatim>\<open>__init__\<close> has already made a list, so the branch \<^verbatim>\<open>if self.subset is None\<close> of the
  source is never taken and has no counterpart here.
\<close>

definition check_subset ::
  "string list \<Rightarrow> string list \<Rightarrow> string list \<Rightarrow> string list \<Rightarrow> pyerror + unit" where
  "check_subset one_columns other_columns on subset_cols =
     (let join_columns = set one_columns \<inter> set other_columns;
          ons = set on;
          sub = set subset_cols
      in if \<not> (length on > 0 \<and> \<not> ons \<subseteq> sub \<and> ons \<subseteq> join_columns)
         then Inl AssertionError
         else let except_on_columns = join_columns - ons
              in if except_on_columns = {} then Inl KeyError
                 else if \<not> sub \<subseteq> except_on_columns then Inl KeyError
                 else Inr ())"

definition prepare_data ::
  "dataframe \<Rightarrow> dataframe \<Rightarrow> string list \<Rightarrow> string list \<Rightarrow> pyerror + frame \<times> frame" where
  "prepare_data one other on subset_cols =
     (case set_index_select one on subset_cols of
        Inl e \<Rightarrow> Inl e
      | Inr a \<Rightarrow>
          (case set_index_select other on subset_cols of
             Inl e \<Rightarrow> Inl e
           | Inr b \<Rightarrow> Inr (a, b)))"

datatype comparator_class = NumberComparator | StringComparator

text \<open>
  \<^verbatim>\<open>_prepare_comparators\<close>: a column of the old frame that converts to float64 is
  compared as numbers; ValueError selects the string comparator, and any other
  exception of the conversion leaves the constructor.
\<close>

definition classify :: "parser \<Rightarrow> frame \<Rightarrow> string \<Rightarrow> pyerror + comparator_class" where
  "classify pf one_indexed col =
     (case traverse (astype_float64 pf) (column_values one_indexed col) of
        Inl e \<Rightarrow> if e = ValueError then Inr StringComparator else Inl e
      | Inr fs \<Rightarrow> Inr NumberComparator)"

definition prepare_comparators ::
  "parser \<Rightarrow> frame \<Rightarrow> string list \<Rightarrow> pyerror + comparator_class list" where
  "prepare_comparators pf one_indexed subset_cols = traverse (classify pf one_indexed) subset_cols"

text \<open>The body of the inner loop of \<^verbatim>\<open>_compare\<close>, for one column and one row label.\<close>

definition compare_cell ::
  "parser \<Rightarrow> frame \<Rightarrow> frame \<Rightarrow> string \<Rightarrow> real \<Rightarrow> bool \<Rightarrow> string \<Rightarrow> comparator_class \<Rightarrow> key
     \<Rightarrow> pyerror + bool" where
  "compare_cell pf one_indexed other_indexed number_mode number_tolerance ignore_case col cls idx =
     (case scalar (df_at one_indexed idx col) of
        Inl e \<Rightarrow> Inl e
      | Inr one_val \<Rightarrow>
          (case (if idx \<in> set (index other_indexed)
                 then scalar (df_at other_indexed idx col) else Inr PyNone) of
             Inl e \<Rightarrow> Inl e
           | Inr other_val \<Rightarrow>
               (if cls = NumberComparator
                then number_compare pf one_val other_val number_mode number_tolerance
                else string_compare one_val other_val ignore_case)))"

text \<open>
  \<^verbatim>\<open>_compare\<close>. The comparison frame has the common row labels of the old frame as its
  index and one column of verdicts per compared column; the loops fill it column by
  column. The mask is \<^verbatim>\<open>all\<close> over each row of verdicts.
\<close>

type_synonym comparison = "key list \<times> bool list list"

definition df_compare ::
  "parser \<Rightarrow> frame \<Rightarrow> frame \<Rightarrow> string list \<Rightarrow> comparator_class list \<Rightarrow> string \<Rightarrow> real \<Rightarrow> bool
     \<Rightarrow> pyerror + comparison \<times> bool list" where
  "df_compare pf one_indexed other_indexed subset_cols comparators number_mode number_tolerance ignore_case =
     (let common_indexes = isin (index one_indexed) (index other_indexed);
          comparison_index = loc_mask (index one_indexed) common_indexes
      in case traverse
                (\<lambda>(col, cls). traverse
                   (compare_cell pf one_indexed other_indexed number_mode number_tolerance
                      ignore_case col cls) comparison_index)
                (zip subset_cols comparators) of
           Inl e \<Rightarrow> Inl e
         | Inr cols \<Rightarrow>
             Inr ((comparison_index, cols),
                  map (\<lambda>j. list_all (\<lambda>c. c ! j) cols) [0..<length comparison_index]))"

text \<open>The attributes of a constructed comparator that the result properties read.\<close>

record comparator =
  self_on :: "string list"
  self_subset :: "string list"
  self_one_indexed :: frame
  self_other_indexed :: frame
  self_comparators :: "comparator_class list"
  self_comparison :: comparison
  self_mask :: "bool list"

text \<open>
  \<^verbatim>\<open>__init__\<close>. The argument \<open>subset\<close> is optional; \<^verbatim>\<open>subset or one.columns.tolist()\<close>
  replaces both \<^verbatim>\<open>None\<close> and the empty list by all columns of the old table.
\<close>

definition init ::
  "parser \<Rightarrow> dataframe \<Rightarrow> dataframe \<Rightarrow> string list \<Rightarrow> string list option \<Rightarrow> string \<Rightarrow> real \<Rightarrow> bool
     \<Rightarrow> pyerror + comparator" where
  "init pf one other on subset_arg number_mode number_tolerance ignore_case =
     (let subset_cols = (case subset_arg of
                       None \<Rightarrow> columns one
                     | Some s \<Rightarrow> if s = [] then columns one else s)
      in case check_subset (columns one) (columns other) on subset_cols of
           Inl e \<Rightarrow> Inl e
         | Inr u \<Rightarrow>
             (case prepare_data one other on subset_cols of
                Inl e \<Rightarrow> Inl e
              | Inr (one_indexed, other_indexed) \<Rightarrow>
                  (case prepare_comparators pf one_indexed subset_cols of
                     Inl e \<Rightarrow> Inl e
                   | Inr comparators \<Rightarrow>
                       (case df_compare pf one_indexed other_indexed subset_cols comparators
                               number_mode number_tolerance ignore_case of
                          Inl e \<Rightarrow> Inl e
                        | Inr (cmp, m) \<Rightarrow>
                            Inr \<lparr>self_on = on, self_subset = subset_cols,
                                 self_one_indexed = one_indexed,
                                 self_other_indexed = other_indexed,
                                 self_comparators = comparators,
                                 self_comparison = cmp, self_mask = m\<rparr>))))"

text \<open>The result properties.\<close>

definition rows_deleted :: "comparator \<Rightarrow> frame" where
  "rows_deleted self =
     loc_mask (self_one_indexed self)
       (map Not (isin (index (self_one_indexed self)) (index (self_other_indexed self))))"

definition rows_inserted :: "comparator \<Rightarrow> frame" where
  "rows_inserted self =
     loc_mask (self_other_indexed self)
       (map Not (isin (index (self_other_indexed self)) (index (self_one_indexed self))))"

definition rows_in_common :: "comparator \<Rightarrow> pyerror + frame" where
  "rows_in_common self =
     loc (self_one_indexed self) (loc_mask (fst (self_comparison self)) (self_mask self))"

definition rows_before_update :: "comparator \<Rightarrow> pyerror + frame" where
  "rows_before_update self =
     loc (self_one_indexed self)
       (loc_mask (fst (self_comparison self)) (map Not (self_mask self)))"

definition rows_after_update :: "comparator \<Rightarrow> pyerror + frame" where
  "rows_after_update self =
     loc (self_other_indexed self)
       (loc_mask (fst (self_comparison self)) (map Not (self_mask self)))"

text \<open>The row labels that \<^verbatim>\<open>set_index(on)\<close> gives the rows of a table: its keys.\<close>

definition keys_of :: "dataframe \<Rightarrow> string list \<Rightarrow> key list" where
  "keys_of df on = map (\<lambda>r. map r on) (rows df)"

section \<open>The sample tables\<close>

text \<open>
  The two tables of \<^verbatim>\<open>test/sample1.py\<close>, compared there on \<^verbatim>\<open>ID\<close> with the subset
  \<^verbatim>\<open>Name\<close>, \<^verbatim>\<open>Age\<close>. A row is written as its list of cells by column. No string of
  the sample denotes a number, so \<^verbatim>\<open>float\<close> raises ValueError on each of them, which
  is all that \<open>sample_parser\<close> has to say.
\<close>

definition row_of :: "(string \<times> cell) list \<Rightarrow> string \<Rightarrow> cell" where
  "row_of cells c = (case map_of cells c of None \<Rightarrow> PyNone | Some v \<Rightarrow> v)"

definition sample_parser :: parser where
  "sample_parser s = None"

definition df1 :: dataframe where
  "df1 = \<lparr>columns = [''ID'', ''Name'', ''Age''],
          rows = [row_of [(''ID'', Num (Fin 1)), (''Name'', Str ''Alice''), (''Age'', Num (Fin 25))],
                  row_of [(''ID'', Num (Fin 2)), (''Name'', Str ''Bob''), (''Age'', Num (Fin 30))],
                  row_of [(''ID'', Num (Fin 3)), (''Name'', Str ''Charlie''), (''Age'', Num (Fin 35))],
                  row_of [(''ID'', Num (Fin 4)), (''Name'', Str ''David''), (''Age'', Num (Fin 40))]]\<rparr>"

definition df2 :: dataframe where
  "df2 = \<lparr>columns = [''ID'', ''Name'', ''Age'', ''NewCol''],
          rows = [row_of [(''ID'', Num (Fin 2)), (''Name'', Str ''Bob''), (''Age'', Num (Fin 30)),
                          (''NewCol'', Num (Fin 1))],
                  row_of [(''ID'', Num (Fin 3)), (''Name'', Str ''Charlie''), (''Age'', Num (Fin 36)),
                          (''NewCol'', Num (Fin 312))],
                  row_of [(''ID'', Num (Fin 4)), (''Name'', Str ''Dave''), (''Age'', Num (Fin 40)),
                          (''NewCol'', Num (Fin 1))],
                  row_of [(''ID'', Num (Fin 5)), (''Name'', Str ''Eve''), (''Age'', Num (Fin 45)),
                          (''NewCol'', Num (Fin 41))]]\<rparr>"

text \<open>
  Two variations for the remaining examples: an old table in which the key 1 occurs
  twice, and the new sample table after a drift of \<^verbatim>\<open>Age\<close> to text in the row of key 3.
\<close>

definition df_dup :: dataframe where
  "df_dup = \<lparr>columns = [''ID'', ''Name'', ''Age''],
             rows = [row_of [(''ID'', Num (Fin 1)), (''Name'', Str ''Alice''), (''Age'', Num (Fin 25))],
                     row_of [(''ID'', Num (Fin 1)), (''Name'', Str ''Alicia''), (''Age'', Num (Fin 26))]]\<rparr>"

definition df2_drift :: dataframe where
  "df2_drift = \<lparr>columns = [''ID'', ''Name'', ''Age'', ''NewCol''],
          rows = [row_of [(''ID'', Num (Fin 2)), (''Name'', Str ''Bob''), (''Age'', Num (Fin 30)),
                          (''NewCol'', Num (Fin 1))],
                  row_of [(''ID'', Num (Fin 3)), (''Name'', Str ''Charlie''), (''Age'', Str ''n/a''),
                          (''NewCol'', Num (Fin 312))],
                  row_of [(''ID'', Num (Fin 4)), (''Name'', Str ''Dave''), (''Age'', Num (Fin 40)),
                          (''NewCol'', Num (Fin 1))],
                  row_of [(''ID'', Num (Fin 5)), (''Name'', Str ''Eve''), (''Age'', Num (Fin 45)),
                          (''NewCol'', Num (Fin 41))]]\<rparr>"

text \<open>
  A third variation: besides the drift of \<^verbatim>\<open>Age\<close> in the row of key 3, the row of
  key 2 has no name.
\<close>

definition df2_mixed :: dataframe where
  "df2_mixed = \<lparr>columns = [''ID'', ''Name'', ''Age'', ''NewCol''],
          rows = [row_of [(''ID'', Num (Fin 2)), (''Name'', PyNone), (''Age'', Num (Fin 30)),
                          (''NewCol'', Num (Fin 1))],
                  row_of [(''ID'', Num (Fin 3)), (''Name'', Str ''Charlie''), (''Age'', Str ''n/a''),
                          (''NewCol'', Num (Fin 312))],
                  row_of [(''ID'', Num (Fin 4)), (''Name'', Str ''Dave''), (''Age'', Num (Fin 40)),
                          (''NewCol'', Num (Fin 1))],
                  row_of [(''ID'', Num (Fin 5)), (''Name'', Str ''Eve''), (''Age'', Num (Fin 45)),
                          (''NewCol'', Num (Fin 41))]]\<rparr>"

section \<open>Rounding to binary64\<close>

lemma round_half_even_of_int: "round_half_even (of_int m) = m"
  by (simp add: round_half_even_def)

lemma floor_log2:
  assumes "2 powr of_int e \<le> \<bar>x\<bar>" and "\<bar>x\<bar> < 2 powr (of_int e + 1)"
  shows "\<lfloor>log 2 \<bar>x\<bar>\<rfloor> = e"
proof -
  have pos: "0 < \<bar>x\<bar>"
    using assms(1) by (smt (verit) powr_gt_zero)
  have "of_int e \<le> log 2 \<bar>x\<bar>"
    using assms(1) pos by (simp add: le_log_iff)
  moreover have "log 2 \<bar>x\<bar> < of_int e + 1"
    using assms(2) pos by (simp add: log_less_iff)
  ultimately show ?thesis
    by (simp add: floor_eq_iff)
qed

lemma binary64_binade:
  assumes "2 powr of_int e \<le> \<bar>x\<bar>" and "\<bar>x\<bar> < 2 powr (of_int e + 1)" and "- 1022 \<le> e"
  shows "binary64 x =
           (let q = of_int (round_half_even (x / 2 powr (of_int e - 52))) * 2 powr (of_int e - 52)
            in if 2 ^ 1024 \<le> q then PInf else if q \<le> - (2 ^ 1024) then NInf else Fin q)"
proof -
  have "x \<noteq> 0"
    using assms(1) by (smt (verit) powr_gt_zero abs_zero)
  moreover have "binade x = e"
    using floor_log2 [OF assms(1,2)] assms(3) by (simp add: binade_def)
  ultimately show ?thesis
    by (simp add: binary64_def ulp_def)
qed

lemma binary64_of_int:
  assumes "\<bar>n\<bar> < 2 ^ 53"
  shows "binary64 (of_int n) = Fin (of_int n)"
proof (cases "n = 0")
  case True
  then show ?thesis by (simp add: binary64_def)
next
  case False
  let ?x = "of_int n :: real"
  let ?e = "\<lfloor>log 2 \<bar>?x\<bar>\<rfloor>"
  have "1 \<le> \<bar>n\<bar>"
    using False by simp
  then have "(1::real) \<le> of_int \<bar>n\<bar>"
    by (simp only: of_int_1_le_iff)
  then have one: "1 \<le> \<bar>?x\<bar>"
    by simp
  have "(of_int \<bar>n\<bar> :: real) < 2 ^ 53"
    using assms by (simp only: of_int_less_numeral_power_cancel_iff)
  then have lt: "\<bar>?x\<bar> < 2 ^ 53"
    by simp
  have "0 \<le> log 2 \<bar>?x\<bar>"
    using one by simp
  then have e0: "0 \<le> ?e" by simp
  have "log 2 \<bar>?x\<bar> < 53"
    using one lt by (simp add: log_less_iff powr_numeral)
  then have e52: "?e \<le> 52"
    by (simp add: floor_le_iff)
  have bin: "binade ?x = ?e"
    using e0 by (simp add: binade_def)
  define k where "k = nat (52 - ?e)"
  have k: "of_int ?e - 52 = - real k"
    using e52 by (simp add: k_def)
  have u: "ulp ?x = 1 / 2 ^ k"
    by (simp add: ulp_def bin k powr_minus powr_realpow inverse_eq_divide)
  have quot: "?x / ulp ?x = of_int (n * 2 ^ k)"
    by (simp add: u)
  have q: "of_int (round_half_even (?x / ulp ?x)) * ulp ?x = ?x"
    unfolding quot round_half_even_of_int by (simp add: u)
  have "(2::real) ^ 53 \<le> 2 ^ 1024"
    by (rule power_increasing) simp_all
  with lt have "\<bar>?x\<bar> < 2 ^ 1024"
    by (rule less_le_trans)
  then have "\<not> 2 ^ 1024 \<le> ?x" and "\<not> ?x \<le> - (2 ^ 1024)"
    by (simp_all add: abs_less_iff not_le)
  then show ?thesis
    using False by (simp add: binary64_def q Let_def)
qed

lemma binary64_numeral [simp]:
  "(numeral w :: int) < 2 ^ 53 \<Longrightarrow> binary64 (numeral w) = Fin (numeral w)"
  using binary64_of_int [of "numeral w"] by simp

lemma binary64_neg_numeral [simp]:
  "(numeral w :: int) < 2 ^ 53 \<Longrightarrow> binary64 (- numeral w) = Fin (- numeral w)"
  using binary64_of_int [of "- numeral w"] by simp

lemma binary64_zero [simp]: "binary64 0 = Fin 0"
  by (simp add: binary64_def)

lemma binary64_one [simp]: "binary64 1 = Fin 1"
  using binary64_of_int [of 1] by simp

lemma binary64_minus_one [simp]: "binary64 (- 1) = Fin (- 1)"
  using binary64_of_int [of "- 1"] by simp

lemma binary64_tiny: "binary64 (1 / 2 ^ 60) = Fin (1 / 2 ^ 60)"
  by (subst binary64_binade [of "- 60"]) (simp_all add: round_half_even_def powr_neg_numeral)

lemma binary64_near_one: "binary64 (1 - 1 / 2 ^ 60) = Fin 1"
  by (subst binary64_binade [of "- 1"]) (simp_all add: round_half_even_def powr_neg_numeral)

lemma binary64_big: "binary64 (2 ^ 1023) = Fin (2 ^ 1023)"
  by (subst binary64_binade [of 1023]) (simp_all add: round_half_even_def powr_neg_numeral)

lemma binary64_overflow: "binary64 (2 ^ 1023 - - (2 ^ 1023)) = PInf"
  by (subst binary64_binade [of 1024]) (simp_all add: round_half_even_def powr_neg_numeral)

lemma binary64_neg_big: "binary64 (- (2 ^ 1023)) = Fin (- (2 ^ 1023))"
  by (subst binary64_binade [of 1023]) (simp_all add: round_half_even_def powr_neg_numeral)

lemmas model_defs =
  init_def check_subset_def prepare_data_def set_index_select_def prepare_comparators_def
  classify_def column_values_def df_compare_def isin_def loc_mask_def loc_def index_def
  compare_cell_def df_at_def number_compare_def absolutely_compare_def relatively_compare_def
  string_compare_def rows_deleted_def rows_inserted_def rows_in_common_def
  rows_before_update_def rows_after_update_def keys_of_def Let_def row_of_def sample_parser_def

section \<open>Tolerance modes\<close>

lemma number_compare_absolute:
  "py_float pf x = Inr a \<Longrightarrow> py_float pf y = Inr b \<Longrightarrow>
     number_compare pf x y ''absolute'' t = Inr (flt (fabs (fsub a b)) (Fin t))"
  by (simp add: number_compare_def absolutely_compare_def)

lemma number_compare_relative:
  "py_float pf x = Inr a \<Longrightarrow> py_float pf y = Inr b \<Longrightarrow>
     number_compare pf x y ''relative'' t = relatively_compare a b t"
  by (simp add: number_compare_def)

text \<open>
  C6, as the claim states it, fails: the difference is computed in floating point. For
  the floats 1 and \<open>2 ^ -60\<close> and tolerance 1 the exact \<open>\<bar>a - b\<bar>\<close> is below the tolerance,
  but the computed difference rounds to 1 and the comparator answers not equal.
\<close>

theorem absolute_mode_counterexample:
  "\<bar>(1::real) - 1 / 2 ^ 60\<bar> < 1
   \<and> number_compare sample_parser (Num (Fin 1)) (Num (Fin (1 / 2 ^ 60))) ''absolute'' 1 = Inr False"
proof
  show "\<bar>(1::real) - 1 / 2 ^ 60\<bar> < 1" by simp
  have c1: "py_float sample_parser (Num (Fin 1)) = Inr (Fin 1)"
    by simp
  have c2: "py_float sample_parser (Num (Fin (1 / 2 ^ 60))) = Inr (Fin (1 / 2 ^ 60))"
    by (simp only: py_float.simps binary64_tiny pyfloat.case)
  have sub: "fsub (Fin 1) (Fin (1 / 2 ^ 60)) = Fin 1"
    by (simp only: fsub.simps binary64_near_one)
  have "number_compare sample_parser (Num (Fin 1)) (Num (Fin (1 / 2 ^ 60))) ''absolute'' 1
          = Inr (flt (fabs (fsub (Fin 1) (Fin (1 / 2 ^ 60)))) (Fin 1))"
    by (rule number_compare_absolute [OF c1 c2])
  also have "\<dots> = Inr False"
    unfolding sub by simp
  finally show "number_compare sample_parser (Num (Fin 1)) (Num (Fin (1 / 2 ^ 60))) ''absolute'' 1
                  = Inr False" .
qed

text \<open>
  C6, amended. In absolute mode the numeric comparator answers equal exactly when the computed \<^verbatim>\<open>abs(a - b)\<close>, the binary64 rounding of the
  exact difference of the two converted values, is below the tolerance. Where the
  difference is a float, that is \<open>\<bar>a - b\<bar> < t\<close>; a computed difference of exactly \<open>t\<close> is
  not equal.
\<close>

theorem absolute_mode_rounded:
  assumes "py_float pf x = Inr (Fin a)" and "py_float pf y = Inr (Fin b)"
  shows "number_compare pf x y ''absolute'' t = Inr (flt (fabs (binary64 (a - b))) (Fin t))
       \<and> (binary64 (a - b) = Fin (a - b)
            \<longrightarrow> number_compare pf x y ''absolute'' t = Inr (\<bar>a - b\<bar> < t))
       \<and> (fabs (binary64 (a - b)) = Fin t
            \<longrightarrow> number_compare pf x y ''absolute'' t = Inr False)"
  using assms by (simp add: number_compare_def absolutely_compare_def)

theorem absolute_mode_rounded_witness:
  "py_float sample_parser (Num (Fin 1)) = Inr (Fin 1)
   \<and> py_float sample_parser (Num (Fin 2)) = Inr (Fin 2)
   \<and> binary64 (1 - 2) = Fin (1 - 2)
   \<and> fabs (binary64 (1 - 2)) = Fin 1
   \<and> number_compare sample_parser (Num (Fin 1)) (Num (Fin 2)) ''absolute'' 1 = Inr False"
  using absolute_mode_rounded [of sample_parser "Num (Fin 1)" 1 "Num (Fin 2)" 2 1]
  by simp

text \<open>
  C7, as the claim states it, fails: for the floats \<open>2 ^ 1023\<close> and \<open>- 2 ^ 1023\<close> and
  tolerance 3 the exact quotient is 2, but the computed difference overflows to
  \<^verbatim>\<open>inf\<close> and the comparator answers not equal.
\<close>

theorem relative_mode_counterexample:
  "\<bar>(2::real) ^ 1023 - - (2 ^ 1023)\<bar> / max \<bar>2 ^ 1023\<bar> \<bar>- (2 ^ 1023)\<bar> < 3
   \<and> number_compare sample_parser (Num (Fin (2 ^ 1023))) (Num (Fin (- (2 ^ 1023)))) ''relative'' 3
       = Inr False"
proof
  let ?a = "(2::real) ^ 1023"
  show "\<bar>?a - - ?a\<bar> / max \<bar>?a\<bar> \<bar>- ?a\<bar> < 3" by simp
  have pos: "0 < ?a" by simp
  have c1: "py_float sample_parser (Num (Fin ?a)) = Inr (Fin ?a)"
    by (simp only: py_float.simps binary64_big pyfloat.case)
  have c2: "py_float sample_parser (Num (Fin (- ?a))) = Inr (Fin (- ?a))"
    by (simp only: py_float.simps binary64_neg_big pyfloat.case)
  have z: "\<not> (feq (Fin (- ?a)) (Fin ?a) \<and> feq (Fin ?a) (Fin 0))"
    using pos by (simp only: feq.simps) (metis less_irrefl)
  have sub: "fsub (Fin ?a) (Fin (- ?a)) = PInf"
    by (simp only: fsub.simps binary64_overflow)
  have mx: "fmax (Fin \<bar>?a\<bar>) (Fin \<bar>- ?a\<bar>) = Fin ?a"
    using pos by (simp only: abs_minus_cancel abs_of_pos fmax_def flt.simps less_irrefl if_False)
  have nz: "Fin ?a \<noteq> Fin 0"
    using pos by (simp only: pyfloat.inject)
  have dv: "fdiv PInf (Fin ?a) = Inr PInf"
    using pos nz by (simp only: fdiv_def fquot.simps if_False if_True)
  have "number_compare sample_parser (Num (Fin ?a)) (Num (Fin (- ?a))) ''relative'' 3
          = relatively_compare (Fin ?a) (Fin (- ?a)) 3"
    by (rule number_compare_relative [OF c1 c2])
  also have "\<dots> = Inr False"
    by (simp only: relatively_compare_def if_not_P [OF z] sub fabs.simps mx dv sum.case flt.simps)
  finally show "number_compare sample_parser (Num (Fin ?a)) (Num (Fin (- ?a))) ''relative'' 3
                  = Inr False" .
qed

text \<open>
  C7, amended. In relative mode the numeric comparator answers equal when both
  converted values are zero. Otherwise it never raises on finite values, and it answers
  equal exactly when the computed \<^verbatim>\<open>abs((a - b) / max(abs(a), abs(b)))\<close> is below the
  tolerance, where the difference and the quotient are rounded to binary64 and the
  difference may overflow to an infinity. Where both are floats, that is
  \<open>\<bar>a - b\<bar> / max \<bar>a\<bar> \<bar>b\<bar> < t\<close>.
\<close>

theorem relative_mode_rounded:
  assumes "py_float pf x = Inr (Fin a)" and "py_float pf y = Inr (Fin b)"
  shows "number_compare pf x y ''relative'' t =
           Inr (if a = 0 \<and> b = 0 then True
                else flt (fabs (fquot (binary64 (a - b)) (Fin (max \<bar>a\<bar> \<bar>b\<bar>)))) (Fin t))
       \<and> (binary64 (a - b) = Fin (a - b)
            \<and> binary64 ((a - b) / max \<bar>a\<bar> \<bar>b\<bar>) = Fin ((a - b) / max \<bar>a\<bar> \<bar>b\<bar>)
            \<longrightarrow> number_compare pf x y ''relative'' t =
                  Inr (if a = 0 \<and> b = 0 then True else \<bar>a - b\<bar> / max \<bar>a\<bar> \<bar>b\<bar> < t))"
proof (cases "a = 0 \<and> b = 0")
  case True
  with assms show ?thesis
    by (simp add: number_compare_def relatively_compare_def)
next
  case False
  then have pos: "0 < max \<bar>a\<bar> \<bar>b\<bar>" by auto
  have mx: "fmax (Fin \<bar>a\<bar>) (Fin \<bar>b\<bar>) = Fin (max \<bar>a\<bar> \<bar>b\<bar>)"
    by (simp add: fmax_def max_def)
  have rel: "relatively_compare (Fin a) (Fin b) t
               = Inr (flt (fabs (fquot (binary64 (a - b)) (Fin (max \<bar>a\<bar> \<bar>b\<bar>)))) (Fin t))"
    using pos False by (auto simp: relatively_compare_def mx fdiv_def)
  have "flt (fabs (fquot (binary64 (a - b)) (Fin (max \<bar>a\<bar> \<bar>b\<bar>)))) (Fin t)
          = (\<bar>a - b\<bar> / max \<bar>a\<bar> \<bar>b\<bar> < t)"
    if "binary64 (a - b) = Fin (a - b)"
      and "binary64 ((a - b) / max \<bar>a\<bar> \<bar>b\<bar>) = Fin ((a - b) / max \<bar>a\<bar> \<bar>b\<bar>)"
    using that pos by simp
  with assms False rel show ?thesis
    by (auto simp: number_compare_def)
qed

theorem relative_mode_rounded_witness:
  "py_float sample_parser (Num (Fin 2)) = Inr (Fin 2)
   \<and> py_float sample_parser (Num (Fin 4)) = Inr (Fin 4)
   \<and> binary64 (2 - 4) = Fin (2 - 4)
   \<and> binary64 ((2 - 4) / max \<bar>2\<bar> \<bar>4\<bar>) = Fin ((2 - 4) / max \<bar>2\<bar> \<bar>4\<bar>)
   \<and> number_compare sample_parser (Num (Fin 2)) (Num (Fin 4)) ''relative'' (1 / 2) = Inr False"
proof -
  have half: "binary64 (- (1 / 2)) = Fin (- (1 / 2))"
    by (subst binary64_binade [of "- 1"]) (simp_all add: round_half_even_def powr_neg_numeral)
  show ?thesis
    using relative_mode_rounded [of sample_parser "Num (Fin 2)" 2 "Num (Fin 4)" 4 "1 / 2"]
    by (simp add: half)
qed

section \<open>Configuration checks\<close>

text \<open>
  C10. With a non-empty list of key columns taken from the old table and the subset
  argument omitted, construction always fails: the default subset is every column of
  the old table, it contains the key columns, and the assertion of \<^verbatim>\<open>_check_subset\<close>
  rejects it.
\<close>

theorem omitted_subset_rejected:
  assumes "on \<noteq> []" and "set on \<subseteq> set (columns one)"
  shows "init pf one other on None number_mode number_tolerance ignore_case = Inl AssertionError"
  using assms by (simp add: init_def check_subset_def)

theorem omitted_subset_rejected_witness:
  "[''ID''] \<noteq> [] \<and> set [''ID''] \<subseteq> set (columns df1)
   \<and> init sample_parser df1 df2 [''ID''] None ''absolute'' (1 / 1000) False = Inl AssertionError"
  using omitted_subset_rejected [of "[''ID'']" df1 sample_parser df2 "''absolute''" "1 / 1000" False]
  by (simp add: df1_def)

text \<open>
  C4. When a column of the given subset is also a key column, \<^verbatim>\<open>_check_subset\<close>
  raises, and so does the construction, with the same exception: AssertionError when
  the subset holds every key column (or the keys are not common columns), KeyError
  otherwise. These two are what the code raises for a configuration error. The check
  reads column names only, so no row has been touched.
\<close>

theorem overlapping_subset_rejected:
  assumes "subset_arg = Some s" and "set s \<inter> set on \<noteq> {}"
  shows "\<exists>e. check_subset (columns one) (columns other) on s = Inl e
           \<and> (e = AssertionError \<or> e = KeyError)
           \<and> init pf one other on subset_arg number_mode number_tolerance ignore_case = Inl e"
proof -
  from assms(2) have ne: "s \<noteq> []" by auto
  from assms(2) have "\<not> set s \<subseteq> set (columns one) \<inter> set (columns other) - set on"
    by auto
  then have "\<exists>e. check_subset (columns one) (columns other) on s = Inl e
           \<and> (e = AssertionError \<or> e = KeyError)"
    by (simp add: check_subset_def Let_def)
  then show ?thesis using ne assms(1)
    by (auto simp: init_def)
qed

theorem overlapping_subset_rejected_witness:
  "set [''Name'', ''Age''] \<inter> set [''ID'', ''Name''] \<noteq> {}
   \<and> (\<exists>e. check_subset (columns df1) (columns df2) [''ID'', ''Name''] [''Name'', ''Age''] = Inl e
           \<and> (e = AssertionError \<or> e = KeyError)
           \<and> init sample_parser df1 df2 [''ID'', ''Name''] (Some [''Name'', ''Age''])
                 ''absolute'' (1 / 1000) False = Inl e)"
  using overlapping_subset_rejected [of "Some [''Name'', ''Age'']" "[''Name'', ''Age'']"
          "[''ID'', ''Name'']" df1 df2 sample_parser "''absolute''" "1 / 1000" False]
  by simp

text \<open>
  C3, as the claim states it, fails: on the sample tables with key \<^verbatim>\<open>ID\<close> the empty
  subset does not succeed, it raises AssertionError.
\<close>

theorem empty_subset_counterexample:
  "init sample_parser df1 df2 [''ID''] (Some []) ''absolute'' (1 / 1000) False
     = Inl AssertionError"
  by (simp add: init_def check_subset_def df1_def)

text \<open>
  C3, amended. An empty subset is never compared as "no columns": \<^verbatim>\<open>__init__\<close>
  replaces it by the default subset, so constructing with the empty list is the same as
  constructing with the subset omitted.
\<close>

theorem empty_subset_is_default:
  "init pf one other on (Some []) number_mode number_tolerance ignore_case
     = init pf one other on None number_mode number_tolerance ignore_case"
  by (simp add: init_def)

theorem empty_subset_is_default_witness:
  "init sample_parser df1 df2 [''ID''] (Some []) ''absolute'' (1 / 1000) False
     = init sample_parser df1 df2 [''ID''] None ''absolute'' (1 / 1000) False"
  using empty_subset_is_default [of sample_parser df1 df2 "[''ID'']" "''absolute''" "1 / 1000" False]
  by simp

section \<open>Masks, label lookups and the shape of a constructed comparator\<close>

lemma loc_mask_map: "loc_mask xs (map g xs) = filter g xs"
  by (induction xs) (auto simp: loc_mask_def)

lemma loc_mask_isin: "loc_mask ks (isin ks ys) = filter (\<lambda>k. k \<in> set ys) ks"
  by (simp add: isin_def loc_mask_map)

lemma index_loc_mask_not_isin:
  "index (loc_mask fr (map Not (isin (index fr) ys))) = filter (\<lambda>k. k \<notin> set ys) (index fr)"
proof -
  have "map Not (isin (index fr) ys) = map (\<lambda>x. fst x \<notin> set ys) fr"
    by (simp add: isin_def index_def)
  then show ?thesis
    by (simp add: loc_mask_map index_def filter_map comp_def)
qed

lemma set_loc_mask_split:
  "length m = length ks \<Longrightarrow> set (loc_mask ks m) \<union> set (loc_mask ks (map Not m)) = set ks"
  by (induction m ks rule: list_induct2) (auto simp: loc_mask_def)

lemma set_loc_mask_subset: "set (loc_mask ks m) \<subseteq> set ks"
  by (auto simp: loc_mask_def dest: set_zip_leftD)

lemma set_loc_mask_disjoint:
  "length m = length ks \<Longrightarrow> distinct ks \<Longrightarrow> set (loc_mask ks m) \<inter> set (loc_mask ks (map Not m)) = {}"
proof (induction m ks rule: list_induct2)
  case Nil
  then show ?case by (simp add: loc_mask_def)
next
  case (Cons b m k ks)
  have "k \<notin> set (loc_mask ks m)" "k \<notin> set (loc_mask ks (map Not m))"
    using Cons.prems set_loc_mask_subset by fastforce+
  moreover have "set (loc_mask ks m) \<inter> set (loc_mask ks (map Not m)) = {}"
    using Cons by simp
  ultimately show ?case
    by (auto simp: loc_mask_def)
qed

lemma index_loc:
  "set labels \<subseteq> set (index fr) \<Longrightarrow> \<exists>f. loc fr labels = Inr f \<and> set (index f) = set labels"
  by (force simp: loc_def index_def)

lemma set_index_select_Inr:
  "set_index_select df on subset_cols = Inr fr \<Longrightarrow>
     fr = map (\<lambda>r. (map r on, map (\<lambda>c. (c, r c)) subset_cols)) (rows df)"
  by (auto simp: set_index_select_def split: if_splits)

lemma init_Inr:
  assumes "init pf one other on subset_arg number_mode number_tolerance ignore_case = Inr self"
  shows "self_one_indexed self = map (\<lambda>r. (map r on, map (\<lambda>c. (c, r c)) (self_subset self))) (rows one)"
    and "self_other_indexed self = map (\<lambda>r. (map r on, map (\<lambda>c. (c, r c)) (self_subset self))) (rows other)"
    and "fst (self_comparison self) =
           loc_mask (index (self_one_indexed self))
             (isin (index (self_one_indexed self)) (index (self_other_indexed self)))"
    and "self_mask self =
           map (\<lambda>j. list_all (\<lambda>c. c ! j) (snd (self_comparison self)))
             [0..<length (fst (self_comparison self))]"
  using assms
  by (auto simp: init_def prepare_data_def df_compare_def Let_def
           dest!: set_index_select_Inr split: sum.splits prod.splits)

lemma init_Inr_index:
  assumes "init pf one other on subset_arg number_mode number_tolerance ignore_case = Inr self"
  shows "index (self_one_indexed self) = keys_of one on"
    and "index (self_other_indexed self) = keys_of other on"
    and "fst (self_comparison self) =
           filter (\<lambda>k. k \<in> set (keys_of other on)) (keys_of one on)"
    and "length (self_mask self) = length (fst (self_comparison self))"
proof -
  show one: "index (self_one_indexed self) = keys_of one on"
    by (simp add: init_Inr(1) [OF assms] index_def comp_def keys_of_def)
  show other: "index (self_other_indexed self) = keys_of other on"
    by (simp add: init_Inr(2) [OF assms] index_def comp_def keys_of_def)
  show "fst (self_comparison self) =
           filter (\<lambda>k. k \<in> set (keys_of other on)) (keys_of one on)"
    using init_Inr(3) [OF assms] loc_mask_isin [of "index (self_one_indexed self)" "index (self_other_indexed self)"]
    by (simp only: one other)
  show "length (self_mask self) = length (fst (self_comparison self))"
    by (subst init_Inr(4) [OF assms]) simp
qed

section \<open>The partition of the keys\<close>

text \<open>
  C1. When construction succeeds and the keys of each table are unique, the five
  result frames partition the keys: \<^verbatim>\<open>rows_deleted\<close> holds exactly the keys of the old
  table that the new table lacks, \<^verbatim>\<open>rows_inserted\<close> exactly the keys only the new table
  has, each common key is in exactly one of \<^verbatim>\<open>rows_in_common\<close> and
  \<^verbatim>\<open>rows_before_update\<close>, and \<^verbatim>\<open>rows_after_update\<close> has the keys of
  \<^verbatim>\<open>rows_before_update\<close>. None of the three label lookups raises.
\<close>

theorem partition_of_keys:
  assumes ok: "init pf one other on subset_arg number_mode number_tolerance ignore_case = Inr self"
      and uniq: "distinct (keys_of one on)"
      and uniq_other: "distinct (keys_of other on)"
  shows "\<exists>common before after.
           rows_in_common self = Inr common
         \<and> rows_before_update self = Inr before
         \<and> rows_after_update self = Inr after
         \<and> set (index (rows_deleted self))
             = set (keys_of one on) - set (keys_of other on)
         \<and> set (index (rows_inserted self))
             = set (keys_of other on) - set (keys_of one on)
         \<and> set (index common) \<union> set (index before)
             = set (keys_of one on) \<inter> set (keys_of other on)
         \<and> set (index common) \<inter> set (index before) = {}
         \<and> set (index after) = set (index before)"
proof -
  let ?K1 = "keys_of one on"
  let ?K2 = "keys_of other on"
  let ?ci = "fst (self_comparison self)"
  let ?same = "loc_mask ?ci (self_mask self)"
  let ?diff = "loc_mask ?ci (map Not (self_mask self))"
  note ix = init_Inr_index [OF ok]
  have ci: "set ?ci = set ?K1 \<inter> set ?K2"
    by (subst ix(3)) auto
  have dci: "distinct ?ci"
    by (subst ix(3)) (rule distinct_filter [OF uniq])
  have same_sub: "set ?same \<subseteq> set ?ci" and diff_sub: "set ?diff \<subseteq> set ?ci"
    by (rule set_loc_mask_subset)+
  obtain common where common: "rows_in_common self = Inr common" "set (index common) = set ?same"
    using index_loc [of ?same "self_one_indexed self"] same_sub ci
    by (auto simp: rows_in_common_def ix(1))
  obtain before where before: "rows_before_update self = Inr before" "set (index before) = set ?diff"
    using index_loc [of ?diff "self_one_indexed self"] diff_sub ci
    by (auto simp: rows_before_update_def ix(1))
  obtain after where after: "rows_after_update self = Inr after" "set (index after) = set ?diff"
    using index_loc [of ?diff "self_other_indexed self"] diff_sub ci
    by (auto simp: rows_after_update_def ix(2))
  have "index (rows_deleted self)
          = filter (\<lambda>k. k \<notin> set (index (self_other_indexed self))) (index (self_one_indexed self))"
    by (simp only: rows_deleted_def index_loc_mask_not_isin)
  then have del: "set (index (rows_deleted self)) = set ?K1 - set ?K2"
    by (simp only: ix(1,2)) auto
  have "index (rows_inserted self)
          = filter (\<lambda>k. k \<notin> set (index (self_one_indexed self))) (index (self_other_indexed self))"
    by (simp only: rows_inserted_def index_loc_mask_not_isin)
  then have ins: "set (index (rows_inserted self)) = set ?K2 - set ?K1"
    by (simp only: ix(1,2)) auto
  have un: "set ?same \<union> set ?diff = set ?ci"
    by (rule set_loc_mask_split [OF ix(4)])
  have disj: "set ?same \<inter> set ?diff = {}"
    by (rule set_loc_mask_disjoint [OF ix(4) dci])
  show ?thesis
    using common before after del ins un disj ci by (intro exI [of _ common] exI [of _ before] exI [of _ after]) simp
qed

theorem partition_of_keys_witness:
  "\<exists>self. init sample_parser df1 df2 [''ID''] (Some [''Name'', ''Age'']) ''absolute'' (1 / 1000) False
             = Inr self
     \<and> distinct (keys_of df1 [''ID''])
     \<and> distinct (keys_of df2 [''ID''])
     \<and> (\<exists>common before after.
           rows_in_common self = Inr common
         \<and> rows_before_update self = Inr before
         \<and> rows_after_update self = Inr after
         \<and> set (index (rows_deleted self)) = set (keys_of df1 [''ID'']) - set (keys_of df2 [''ID''])
         \<and> set (index (rows_inserted self)) = set (keys_of df2 [''ID'']) - set (keys_of df1 [''ID''])
         \<and> set (index common) \<union> set (index before)
             = set (keys_of df1 [''ID'']) \<inter> set (keys_of df2 [''ID''])
         \<and> set (index common) \<inter> set (index before) = {}
         \<and> set (index after) = set (index before))"
proof -
  obtain self where ok:
    "init sample_parser df1 df2 [''ID''] (Some [''Name'', ''Age'']) ''absolute'' (1 / 1000) False
       = Inr self"
    by (simp add: model_defs df1_def df2_def)
  have uniq: "distinct (keys_of df1 [''ID''])"
    by (simp add: keys_of_def df1_def row_of_def)
  have uniq_other: "distinct (keys_of df2 [''ID''])"
    by (simp add: keys_of_def df2_def row_of_def)
  show ?thesis
    using partition_of_keys [OF ok uniq uniq_other] ok uniq uniq_other by blast
qed

lemma set_loc_mask_nth:
  "set (loc_mask ks m) = {k. \<exists>j. j < length ks \<and> j < length m \<and> ks ! j = k \<and> m ! j}"
  by (force simp: loc_mask_def set_zip)

lemma set_loc_mask_not_range:
  "set (loc_mask ks (map (Not \<circ> P) [0..<length ks])) = {k. \<exists>j<length ks. ks ! j = k \<and> \<not> P j}"
  by (simp add: set_loc_mask_nth cong: conj_cong)

lemma index_loc_Inr: "loc fr labels = Inr f \<Longrightarrow> set (index f) = set labels"
  by (force simp: loc_def index_def split: if_splits)

text \<open>
  C9. \<^verbatim>\<open>rows_before_update\<close> and \<^verbatim>\<open>rows_after_update\<close> are indexed by the same set
  of keys. For any comparator whatever, when the two lookups return, both frames carry
  exactly the labels that the comparison frame has where the mask is false. Where the
  comparison frame and the mask are as \<^verbatim>\<open>_compare\<close> lays them out (the common keys of
  the old frame as index, the mask \<^verbatim>\<open>all\<close> over each row of verdicts), whatever the
  verdicts are, both lookups do return and the labels are the common keys with a false
  verdict in some column. A constructed comparator is laid out so.
\<close>

theorem updated_pair_same_keys:
  "(\<forall>before after.
       rows_before_update self = Inr before \<and> rows_after_update self = Inr after
       \<longrightarrow> set (index before) = set (index after)
           \<and> set (index before)
               = set (loc_mask (fst (self_comparison self)) (map Not (self_mask self))))
   \<and> (fst (self_comparison self)
         = loc_mask (index (self_one_indexed self))
             (isin (index (self_one_indexed self)) (index (self_other_indexed self)))
       \<and> self_mask self
         = map (\<lambda>j. list_all (\<lambda>c. c ! j) (snd (self_comparison self)))
             [0..<length (fst (self_comparison self))]
       \<longrightarrow> (\<exists>before after.
              rows_before_update self = Inr before
            \<and> rows_after_update self = Inr after
            \<and> set (index before) = set (index after)
            \<and> set (index before)
                = {k. \<exists>j < length (fst (self_comparison self)).
                         fst (self_comparison self) ! j = k
                       \<and> (\<exists>c \<in> set (snd (self_comparison self)). \<not> c ! j)}
            \<and> set (fst (self_comparison self))
                = set (index (self_one_indexed self)) \<inter> set (index (self_other_indexed self))))
   \<and> (init pf one other on subset_arg number_mode number_tolerance ignore_case = Inr self
       \<longrightarrow> fst (self_comparison self)
             = loc_mask (index (self_one_indexed self))
                 (isin (index (self_one_indexed self)) (index (self_other_indexed self)))
           \<and> self_mask self
             = map (\<lambda>j. list_all (\<lambda>c. c ! j) (snd (self_comparison self)))
                 [0..<length (fst (self_comparison self))]
           \<and> index (self_one_indexed self) = keys_of one on
           \<and> index (self_other_indexed self) = keys_of other on)"
proof (intro conjI allI impI)
  fix before after
  assume both: "rows_before_update self = Inr before \<and> rows_after_update self = Inr after"
  let ?diff = "loc_mask (fst (self_comparison self)) (map Not (self_mask self))"
  from both have "loc (self_one_indexed self) ?diff = Inr before"
    by (simp only: rows_before_update_def)
  then have b: "set (index before) = set ?diff"
    by (rule index_loc_Inr)
  from both have "loc (self_other_indexed self) ?diff = Inr after"
    by (simp only: rows_after_update_def)
  then have a: "set (index after) = set ?diff"
    by (rule index_loc_Inr)
  from a b show "set (index before) = set (index after)" by simp
  from b show "set (index before) = set ?diff" .
next
  let ?ci = "fst (self_comparison self)"
  let ?diff = "loc_mask ?ci (map Not (self_mask self))"
  assume shape:
    "?ci = loc_mask (index (self_one_indexed self))
             (isin (index (self_one_indexed self)) (index (self_other_indexed self)))
     \<and> self_mask self = map (\<lambda>j. list_all (\<lambda>c. c ! j) (snd (self_comparison self))) [0..<length ?ci]"
  then have cif: "?ci = filter (\<lambda>k. k \<in> set (index (self_other_indexed self)))
                     (index (self_one_indexed self))"
    by (simp only: loc_mask_isin)
  have ci: "set ?ci = set (index (self_one_indexed self)) \<inter> set (index (self_other_indexed self))"
    by (subst cif) auto
  have diff_sub: "set ?diff \<subseteq> set ?ci"
    by (rule set_loc_mask_subset)
  obtain before where before: "rows_before_update self = Inr before" "set (index before) = set ?diff"
    using index_loc [of ?diff "self_one_indexed self"] diff_sub ci
    by (auto simp: rows_before_update_def)
  obtain after where after: "rows_after_update self = Inr after" "set (index after) = set ?diff"
    using index_loc [of ?diff "self_other_indexed self"] diff_sub ci
    by (auto simp: rows_after_update_def)
  from shape have m: "self_mask self
      = map (\<lambda>j. list_all (\<lambda>c. c ! j) (snd (self_comparison self))) [0..<length ?ci]"
    by simp
  have "set ?diff = {k. \<exists>j < length ?ci. ?ci ! j = k \<and> (\<exists>c \<in> set (snd (self_comparison self)). \<not> c ! j)}"
    by (subst m) (simp add: set_loc_mask_not_range list_all_iff)
  with before after ci
  show "\<exists>before after.
          rows_before_update self = Inr before
        \<and> rows_after_update self = Inr after
        \<and> set (index before) = set (index after)
        \<and> set (index before)
            = {k. \<exists>j < length ?ci. ?ci ! j = k \<and> (\<exists>c \<in> set (snd (self_comparison self)). \<not> c ! j)}
        \<and> set ?ci = set (index (self_one_indexed self)) \<inter> set (index (self_other_indexed self))"
    by auto
next
  assume ok: "init pf one other on subset_arg number_mode number_tolerance ignore_case = Inr self"
  show "fst (self_comparison self)
          = loc_mask (index (self_one_indexed self))
              (isin (index (self_one_indexed self)) (index (self_other_indexed self)))"
    by (rule init_Inr(3) [OF ok])
  show "self_mask self
          = map (\<lambda>j. list_all (\<lambda>c. c ! j) (snd (self_comparison self)))
              [0..<length (fst (self_comparison self))]"
    by (rule init_Inr(4) [OF ok])
  show "index (self_one_indexed self) = keys_of one on"
    by (rule init_Inr_index(1) [OF ok])
  show "index (self_other_indexed self) = keys_of other on"
    by (rule init_Inr_index(2) [OF ok])
qed

theorem updated_pair_same_keys_witness:
  "\<exists>self. init sample_parser df1 df2 [''ID''] (Some [''Name'', ''Age'']) ''absolute'' (1 / 1000) False
             = Inr self
     \<and> (\<exists>before after.
           rows_before_update self = Inr before
         \<and> rows_after_update self = Inr after
         \<and> set (index before) = set (index after)
         \<and> set (index before) = {[Num (Fin 3)], [Num (Fin 4)]})"
proof -
  obtain self where ok:
    "init sample_parser df1 df2 [''ID''] (Some [''Name'', ''Age'']) ''absolute'' (1 / 1000) False
       = Inr self"
    by (simp add: model_defs df1_def df2_def)
  note inst = updated_pair_same_keys [of self sample_parser df1 df2 "[''ID'']"
                "Some [''Name'', ''Age'']" "''absolute''" "1 / 1000" False]
  note made = inst [THEN conjunct2, THEN conjunct2, rule_format, OF ok]
  note laid = conjI [OF made [THEN conjunct1] made [THEN conjunct2, THEN conjunct1]]
  from inst [THEN conjunct2, THEN conjunct1, rule_format, OF laid] obtain before after where
    ba: "rows_before_update self = Inr before" "rows_after_update self = Inr after"
        "set (index before) = set (index after)"
    by blast
  have "rows_before_update self = Inr [([Num (Fin 3)], [(''Name'', Str ''Charlie''), (''Age'', Num (Fin 35))]),
                                       ([Num (Fin 4)], [(''Name'', Str ''David''), (''Age'', Num (Fin 40))])]"
    using ok by (auto simp: model_defs df1_def df2_def)
  with ba(1) have "before = [([Num (Fin 3)], [(''Name'', Str ''Charlie''), (''Age'', Num (Fin 35))]),
                            ([Num (Fin 4)], [(''Name'', Str ''David''), (''Age'', Num (Fin 40))])]"
    by simp
  then have "set (index before) = {[Num (Fin 3)], [Num (Fin 4)]}"
    by (simp add: index_def)
  with ok ba show ?thesis by blast
qed

section \<open>Duplicate keys\<close>

text \<open>
  C2, as the claim states it, fails: \<open>df_dup\<close> has the key 1 twice, and comparing it with
  the new sample table raises nothing; both rows of key 1 are reported as deleted.
\<close>

theorem duplicate_key_counterexample:
  "\<not> distinct (keys_of df_dup [''ID''])
   \<and> map_sum id rows_deleted
        (init sample_parser df_dup df2 [''ID''] (Some [''Name'', ''Age'']) ''absolute'' (1 / 1000) False)
       = Inr [([Num (Fin 1)], [(''Name'', Str ''Alice''), (''Age'', Num (Fin 25))]),
              ([Num (Fin 1)], [(''Name'', Str ''Alicia''), (''Age'', Num (Fin 26))])]"
  by (simp add: model_defs df_dup_def df2_def)

lemma traverse_all_Inr:
  "(\<And>x. x \<in> set xs \<Longrightarrow> f x = Inr (g x)) \<Longrightarrow> traverse f xs = Inr (map g xs)"
  by (induction xs) simp_all

lemma check_subset_Inr:
  assumes "check_subset one_columns other_columns on s = Inr u"
  shows "on \<noteq> []" and "set on \<subseteq> set one_columns" and "set on \<subseteq> set other_columns"
    and "set s \<subseteq> set one_columns - set on" and "set s \<subseteq> set other_columns - set on"
  using assms by (auto simp: check_subset_def Let_def split: if_splits)

lemma loc_mask_none_isin:
  "set (index fr) \<inter> set ys = {} \<Longrightarrow> loc_mask fr (map Not (isin (index fr) ys)) = fr"
proof -
  assume d: "set (index fr) \<inter> set ys = {}"
  have "map Not (isin (index fr) ys) = map (\<lambda>x. fst x \<notin> set ys) fr"
    by (simp add: isin_def index_def)
  moreover have "filter (\<lambda>x. fst x \<notin> set ys) fr = fr"
    using d by (auto simp: index_def filter_id_conv)
  ultimately show ?thesis by (simp add: loc_mask_map)
qed

lemma traverse_Inl_member: "traverse f xs = Inl e \<Longrightarrow> \<exists>x \<in> set xs. f x = Inl e"
  by (induction xs) (auto split: sum.splits)

lemma py_float_error:
  "py_float pf v = Inl e \<Longrightarrow> e = ValueError \<or> e = TypeError \<or> e = OverflowError"
  by (cases "(pf, v)" rule: py_float.cases) (auto split: option.splits pyfloat.splits)

lemma py_float_Num_error: "py_float pf (Num f) = Inl e \<Longrightarrow> e = OverflowError"
  by (cases f) (auto split: pyfloat.splits)

lemma astype_float64_error:
  "astype_float64 pf v = Inl e \<Longrightarrow> e = ValueError \<or> e = OverflowError"
proof (cases v)
  case (Num f)
  then show "astype_float64 pf v = Inl e \<Longrightarrow> ?thesis"
    by (auto dest: py_float_Num_error)
next
  case (Str s)
  then show "astype_float64 pf v = Inl e \<Longrightarrow> ?thesis"
    by (auto split: option.splits)
next
  case PyNone
  then show "astype_float64 pf v = Inl e \<Longrightarrow> ?thesis"
    by simp
qed

lemma prepare_comparators_error:
  assumes "prepare_comparators pf fr s = Inl e"
  shows "e = OverflowError"
proof -
  from assms obtain col where "classify pf fr col = Inl e"
    unfolding prepare_comparators_def by (auto dest: traverse_Inl_member)
  then obtain e' where "traverse (astype_float64 pf) (column_values fr col) = Inl e'"
    and "e' \<noteq> ValueError" and "e = e'"
    by (auto simp: classify_def split: sum.splits if_splits)
  then show ?thesis
    by (auto dest!: traverse_Inl_member astype_float64_error)
qed

text \<open>
  C2, amended. Indexing the tables makes no check for duplicate keys: for every
  configuration that passes \<^verbatim>\<open>_check_subset\<close>, \<^verbatim>\<open>_prepare_data\<close> returns both frames
  with every row under its key, duplicates included. When the two tables share no key,
  so that no cell is compared, duplicated keys never make the construction fail: the
  only exception left is the OverflowError of an integer too large for a float while
  the columns of the old table are classified, and otherwise the construction succeeds
  and reports every old row as deleted and every new row as inserted.
\<close>

theorem duplicate_keys_not_checked:
  assumes ne: "s \<noteq> []"
      and chk: "check_subset (columns one) (columns other) on s = Inr ()"
  shows "prepare_data one other on s
           = Inr (map (\<lambda>r. (map r on, map (\<lambda>c. (c, r c)) s)) (rows one),
                  map (\<lambda>r. (map r on, map (\<lambda>c. (c, r c)) s)) (rows other))
       \<and> (set (keys_of one on) \<inter> set (keys_of other on) = {} \<longrightarrow>
            (\<forall>e. init pf one other on (Some s) number_mode number_tolerance ignore_case = Inl e
                  \<longrightarrow> e = OverflowError
                      \<and> prepare_comparators pf
                            (map (\<lambda>r. (map r on, map (\<lambda>c. (c, r c)) s)) (rows one)) s = Inl e)
          \<and> (\<forall>cs. prepare_comparators pf
                      (map (\<lambda>r. (map r on, map (\<lambda>c. (c, r c)) s)) (rows one)) s = Inr cs
                  \<longrightarrow> (\<exists>self. init pf one other on (Some s) number_mode number_tolerance ignore_case
                                 = Inr self
                             \<and> index (self_one_indexed self) = keys_of one on
                             \<and> index (self_other_indexed self) = keys_of other on
                             \<and> rows_deleted self = self_one_indexed self
                             \<and> rows_inserted self = self_other_indexed self)))"
proof (intro conjI impI allI)
  let ?fr1 = "map (\<lambda>r. (map r on, map (\<lambda>c. (c, r c)) s)) (rows one)"
  let ?fr2 = "map (\<lambda>r. (map r on, map (\<lambda>c. (c, r c)) s)) (rows other)"
  note cs = check_subset_Inr [OF chk]
  have ix: "index ?fr1 = keys_of one on" "index ?fr2 = keys_of other on"
    by (simp_all add: index_def keys_of_def comp_def)
  show prep: "prepare_data one other on s = Inr (?fr1, ?fr2)"
    using cs by (simp add: prepare_data_def set_index_select_def)
  have run: "init pf one other on (Some s) number_mode number_tolerance ignore_case
               = (case prepare_comparators pf ?fr1 s of
                    Inl e \<Rightarrow> Inl e
                  | Inr comparators \<Rightarrow>
                      Inr \<lparr>self_on = on, self_subset = s, self_one_indexed = ?fr1,
                           self_other_indexed = ?fr2, self_comparators = comparators,
                           self_comparison = ([], map (\<lambda>x. []) (zip s comparators)),
                           self_mask = []\<rparr>)"
    if disj: "set (keys_of one on) \<inter> set (keys_of other on) = {}"
  proof -
    have none: "filter (\<lambda>k. k \<in> set (keys_of other on)) (keys_of one on) = []"
      using disj by (auto simp: filter_empty_conv)
    have empty: "loc_mask (index ?fr1) (isin (index ?fr1) (index ?fr2)) = []"
      by (simp only: ix loc_mask_isin none)
    have cmp: "df_compare pf ?fr1 ?fr2 s comparators number_mode number_tolerance ignore_case
                 = Inr (([], map (\<lambda>x. []) (zip s comparators)), [])" for comparators
      unfolding df_compare_def Let_def empty
      by (subst traverse_all_Inr [where g = "\<lambda>x. []"]) auto
    show ?thesis
      using ne chk by (simp add: init_def prep cmp split: sum.splits)
  qed
  {
    fix e
    assume disj: "set (keys_of one on) \<inter> set (keys_of other on) = {}"
      and fail: "init pf one other on (Some s) number_mode number_tolerance ignore_case = Inl e"
    from fail run [OF disj] have pc: "prepare_comparators pf ?fr1 s = Inl e"
      by (auto split: sum.splits)
    then show "e = OverflowError" by (rule prepare_comparators_error)
    from pc show "prepare_comparators pf ?fr1 s = Inl e" .
  }
  {
    fix comparators
    assume disj: "set (keys_of one on) \<inter> set (keys_of other on) = {}"
      and pc: "prepare_comparators pf ?fr1 s = Inr comparators"
    let ?self = "\<lparr>self_on = on, self_subset = s, self_one_indexed = ?fr1,
                   self_other_indexed = ?fr2, self_comparators = comparators,
                   self_comparison = ([], map (\<lambda>x. []) (zip s comparators)),
                   self_mask = []\<rparr>"
    have ok: "init pf one other on (Some s) number_mode number_tolerance ignore_case = Inr ?self"
      using run [OF disj] pc by simp
    have del: "rows_deleted ?self = ?fr1"
      using disj loc_mask_none_isin [of ?fr1 "index ?fr2"]
      by (simp add: rows_deleted_def ix)
    have ins: "rows_inserted ?self = ?fr2"
      using disj loc_mask_none_isin [of ?fr2 "index ?fr1"]
      by (simp add: rows_inserted_def ix Int_commute)
    show "\<exists>self. init pf one other on (Some s) number_mode number_tolerance ignore_case = Inr self
             \<and> index (self_one_indexed self) = keys_of one on
             \<and> index (self_other_indexed self) = keys_of other on
             \<and> rows_deleted self = self_one_indexed self
             \<and> rows_inserted self = self_other_indexed self"
      using ok del ins ix by (intro exI [of _ ?self]) simp
  }
qed

theorem duplicate_keys_not_checked_witness:
  "[''Name'', ''Age''] \<noteq> []
   \<and> check_subset (columns df_dup) (columns df2) [''ID''] [''Name'', ''Age''] = Inr ()
   \<and> set (keys_of df_dup [''ID'']) \<inter> set (keys_of df2 [''ID'']) = {}
   \<and> \<not> distinct (keys_of df_dup [''ID''])
   \<and> prepare_comparators sample_parser
         (map (\<lambda>r. (map r [''ID''], map (\<lambda>c. (c, r c)) [''Name'', ''Age''])) (rows df_dup))
         [''Name'', ''Age''] = Inr [StringComparator, NumberComparator]
   \<and> (\<exists>self. init sample_parser df_dup df2 [''ID''] (Some [''Name'', ''Age''])
                 ''absolute'' (1 / 1024) False = Inr self
           \<and> index (self_one_indexed self) = keys_of df_dup [''ID'']
           \<and> index (self_other_indexed self) = keys_of df2 [''ID'']
           \<and> rows_deleted self = self_one_indexed self
           \<and> rows_inserted self = self_other_indexed self)"
proof -
  have ne: "[''Name'', ''Age''] \<noteq> []" by simp
  have chk: "check_subset (columns df_dup) (columns df2) [''ID''] [''Name'', ''Age''] = Inr ()"
    by (simp add: check_subset_def df_dup_def df2_def)
  have disj: "set (keys_of df_dup [''ID'']) \<inter> set (keys_of df2 [''ID'']) = {}"
    by (simp add: keys_of_def df_dup_def df2_def row_of_def)
  have dup: "\<not> distinct (keys_of df_dup [''ID''])"
    by (simp add: keys_of_def df_dup_def row_of_def)
  have pc: "prepare_comparators sample_parser
         (map (\<lambda>r. (map r [''ID''], map (\<lambda>c. (c, r c)) [''Name'', ''Age''])) (rows df_dup))
         [''Name'', ''Age''] = Inr [StringComparator, NumberComparator]"
    by (simp add: prepare_comparators_def classify_def column_values_def df_dup_def row_of_def
          sample_parser_def)
  note inst = duplicate_keys_not_checked [OF ne chk, of sample_parser "''absolute''" "1 / 1024" False]
  from inst [THEN conjunct2, rule_format, OF disj, THEN conjunct2, rule_format, OF pc]
  show ?thesis
    using chk disj dup pc by simp
qed

section \<open>Values that do not convert\<close>

lemma traverse_Inr_member:
  "traverse f xs = Inr ys \<Longrightarrow> x \<in> set xs \<Longrightarrow> \<exists>y \<in> set ys. f x = Inr y"
  by (induction xs arbitrary: ys) (auto split: sum.splits)

lemma traverse_Inr_result:
  "traverse f xs = Inr ys \<Longrightarrow> y \<in> set ys \<Longrightarrow> \<exists>x \<in> set xs. f x = Inr y"
  by (induction xs arbitrary: ys) (auto split: sum.splits)

lemma traverse_Inr_length: "traverse f xs = Inr ys \<Longrightarrow> length ys = length xs"
  by (induction xs arbitrary: ys) (auto split: sum.splits)

lemma traverse_Inr_ex: "(\<And>x. x \<in> set xs \<Longrightarrow> \<exists>b. f x = Inr b) \<Longrightarrow> \<exists>ys. traverse f xs = Inr ys"
proof (induction xs)
  case Nil
  then show ?case by simp
next
  case (Cons x xs)
  then obtain b ys where "f x = Inr b" "traverse f xs = Inr ys"
    by (meson list.set_intros)
  then show ?case by simp
qed

lemma traverse_first_error:
  assumes "y \<in> set xs" and "\<not> P y"
    and "\<And>x. x \<in> set xs \<Longrightarrow> \<not> P x \<Longrightarrow> f x = Inl e"
    and "\<And>x. x \<in> set (takeWhile P xs) \<Longrightarrow> \<exists>b. f x = Inr b"
  shows "traverse f xs = Inl e"
  using assms
proof (induction xs)
  case Nil
  then show ?case by simp
next
  case (Cons x xs)
  show ?case
  proof (cases "P x")
    case False
    with Cons.prems(3) [of x] show ?thesis by simp
  next
    case True
    with Cons.prems(4) [of x] obtain b where b: "f x = Inr b" by auto
    from True Cons.prems(1,2) have "y \<in> set xs" by auto
    moreover have "\<And>z. z \<in> set (takeWhile P xs) \<Longrightarrow> \<exists>b. f z = Inr b"
      using Cons.prems(4) True by simp
    ultimately have "traverse f xs = Inl e"
      using Cons.IH Cons.prems(2,3) by simp
    with b show ?thesis by simp
  qed
qed

lemma scalar_Inr: "scalar vs = Inr v \<Longrightarrow> vs = [v]"
  by (cases vs rule: scalar.cases) simp_all

lemma df_at_member:
  "r \<in> set rs \<Longrightarrow> col \<in> set s \<Longrightarrow>
     r col \<in> set (df_at (map (\<lambda>r. (map r on, map (\<lambda>c. (c, r c)) s)) rs) (map r on) col)"
  by (force simp: df_at_def)

lemma df_at_cells:
  "v \<in> set (df_at (map (\<lambda>r. (map r on, map (\<lambda>c. (c, r c)) s)) rs) idx col) \<Longrightarrow>
     \<exists>r \<in> set rs. v = r col \<and> col \<in> set s"
  by (auto simp: df_at_def split: if_splits)

lemma filter_single: "distinct s \<Longrightarrow> col \<in> set s \<Longrightarrow> filter (\<lambda>c. c = col) s = [col]"
  by (induction s) (auto simp: filter_empty_conv)

lemma concat_single:
  "distinct (map f xs) \<Longrightarrow> x \<in> set xs \<Longrightarrow>
     concat (map (\<lambda>y. if f y = f x then [g y] else []) xs) = [g x]"
proof (induction xs)
  case Nil
  then show ?case by simp
next
  case (Cons y xs)
  show ?case
  proof (cases "y = x")
    case True
    have "f x \<notin> f ` set xs"
      using Cons.prems(1) True by simp
    then have "concat (map (\<lambda>y. if f y = f x then [g y] else []) xs) = []"
      by (auto simp: image_iff)
    with True show ?thesis by simp
  next
    case False
    with Cons.prems have x: "x \<in> set xs" by simp
    then have "f y \<noteq> f x"
      using Cons.prems(1) by auto
    with Cons.IH x Cons.prems(1) show ?thesis by simp
  qed
qed

lemma df_at_unique:
  assumes "distinct (map (\<lambda>r. map r on) rs)" and "distinct s" and "r \<in> set rs" and "col \<in> set s"
  shows "df_at (map (\<lambda>r. (map r on, map (\<lambda>c. (c, r c)) s)) rs) (map r on) col = [r col]"
proof -
  have cell: "map snd (filter (\<lambda>(c, v). c = col) (map (\<lambda>c. (c, r' c)) s)) = [r' col]" for r'
    using filter_single [OF assms(2,4)]
    by (simp add: filter_map comp_def case_prod_beta)
  have "df_at (map (\<lambda>r. (map r on, map (\<lambda>c. (c, r c)) s)) rs) (map r on) col
          = concat (map (\<lambda>r'. if map r' on = map r on then [r' col] else []) rs)"
    by (simp add: df_at_def comp_def cell del: map_eq_conv cong: if_cong)
  also have "\<dots> = [r col]"
    by (rule concat_single [OF assms(1,3)])
  finally show ?thesis .
qed

lemma prepare_data_Inr:
  "prepare_data one other on s = Inr (fr1, fr2) \<Longrightarrow>
     fr1 = map (\<lambda>r. (map r on, map (\<lambda>c. (c, r c)) s)) (rows one)
   \<and> fr2 = map (\<lambda>r. (map r on, map (\<lambda>c. (c, r c)) s)) (rows other)"
  by (auto simp: prepare_data_def split: sum.splits dest!: set_index_select_Inr)

lemma init_Inr_compare:
  assumes "init pf one other on subset_arg number_mode number_tolerance ignore_case = Inr self"
  shows "traverse
           (\<lambda>(col, cls). traverse
              (compare_cell pf (self_one_indexed self) (self_other_indexed self) number_mode
                 number_tolerance ignore_case col cls) (fst (self_comparison self)))
           (zip (self_subset self) (self_comparators self))
         = Inr (snd (self_comparison self))"
    and "prepare_comparators pf (self_one_indexed self) (self_subset self) = Inr (self_comparators self)"
    and "prepare_data one other on (self_subset self) = Inr (self_one_indexed self, self_other_indexed self)"
    and "self_subset self = (case subset_arg of None \<Rightarrow> columns one
                              | Some s \<Rightarrow> if s = [] then columns one else s)"
  using assms
  by (auto simp: init_def df_compare_def Let_def split: sum.splits prod.splits)

lemma number_compare_error:
  assumes "py_float pf v = Inl e"
  shows "number_compare pf v x mode t = Inl e"
    and "\<exists>e'. number_compare pf x v mode t = Inl e'
              \<and> (e' = ValueError \<or> e' = TypeError \<or> e' = OverflowError)"
proof -
  show "number_compare pf v x mode t = Inl e"
    using assms by (simp add: number_compare_def)
  show "\<exists>e'. number_compare pf x v mode t = Inl e'
              \<and> (e' = ValueError \<or> e' = TypeError \<or> e' = OverflowError)"
    using assms py_float_error [of pf x] py_float_error [OF assms]
    by (cases "py_float pf x") (auto simp: number_compare_def)
qed

text \<open>
  C8, as the claim states it, fails: the exception that ends the construction need not be
  the conversion error. In \<open>df2_mixed\<close> the column \<^verbatim>\<open>Age\<close>, classified as numeric from
  the old sample table, holds text in the row of the common key 3, yet with
  \<^verbatim>\<open>ignore_case\<close> set the construction ends earlier, in the column \<^verbatim>\<open>Name\<close>, with
  the AttributeError of \<^verbatim>\<open>None.lower()\<close>.
\<close>

theorem numeric_drift_counterexample:
  "classify sample_parser
     [([Num (Fin 1)], [(''Name'', Str ''Alice''), (''Age'', Num (Fin 25))]),
      ([Num (Fin 2)], [(''Name'', Str ''Bob''), (''Age'', Num (Fin 30))]),
      ([Num (Fin 3)], [(''Name'', Str ''Charlie''), (''Age'', Num (Fin 35))]),
      ([Num (Fin 4)], [(''Name'', Str ''David''), (''Age'', Num (Fin 40))])] ''Age''
     = Inr NumberComparator
   \<and> set_index_select df1 [''ID''] [''Name'', ''Age'']
     = Inr [([Num (Fin 1)], [(''Name'', Str ''Alice''), (''Age'', Num (Fin 25))]),
            ([Num (Fin 2)], [(''Name'', Str ''Bob''), (''Age'', Num (Fin 30))]),
            ([Num (Fin 3)], [(''Name'', Str ''Charlie''), (''Age'', Num (Fin 35))]),
            ([Num (Fin 4)], [(''Name'', Str ''David''), (''Age'', Num (Fin 40))])]
   \<and> map (rows df2_mixed ! 1) [''ID''] \<in> set (keys_of df1 [''ID''])
   \<and> py_float sample_parser ((rows df2_mixed ! 1) ''Age'') = Inl ValueError
   \<and> init sample_parser df1 df2_mixed [''ID''] (Some [''Name'', ''Age'']) ''absolute'' (1 / 1024) True
       = Inl AttributeError"
  by (simp add: model_defs df1_def df2_mixed_def)

text \<open>
  C8, amended. A value that \<^verbatim>\<open>float()\<close> cannot convert makes the numeric comparator
  raise the conversion error: ValueError for text, TypeError for \<^verbatim>\<open>None\<close>,
  OverflowError for an integer too large. Take a configuration that passes
  \<^verbatim>\<open>_check_subset\<close> and names each compared column once, two tables with unique keys,
  a column classified as numeric from the old table, and in the new table a value of
  that column that does not convert, in a row whose key is common to both tables. Then
  the construction returns no comparator, it ends in an exception; and when no cell
  compared before this one (the columns in the order of the subset, the keys in the
  order of the old table) fails, that exception is a conversion error.
\<close>

theorem numeric_drift_aborts:
  assumes ne: "s \<noteq> []" and ds: "distinct s"
      and chk: "check_subset (columns one) (columns other) on s = Inr ()"
      and prep: "prepare_data one other on s = Inr (one_indexed, other_indexed)"
      and comps: "prepare_comparators pf one_indexed s = Inr comparators"
      and cls: "(col, NumberComparator) \<in> set (zip s comparators)"
      and uniq: "distinct (keys_of one on)" and uniq_other: "distinct (keys_of other on)"
      and row: "r \<in> set (rows other)" and common: "map r on \<in> set (keys_of one on)"
      and bad: "py_float pf (r col) = Inl e"
  shows "(e = ValueError \<or> e = TypeError \<or> e = OverflowError)
       \<and> (\<forall>x mode t. number_compare pf (r col) x mode t = Inl e
              \<and> (\<exists>e'. number_compare pf x (r col) mode t = Inl e'
                     \<and> (e' = ValueError \<or> e' = TypeError \<or> e' = OverflowError)))
       \<and> (\<exists>e'. init pf one other on (Some s) number_mode number_tolerance ignore_case = Inl e')
       \<and> ((\<forall>(c, k) \<in> set (takeWhile (\<lambda>(c, k). c \<noteq> col) (zip s comparators)).
              \<forall>idx \<in> set (filter (\<lambda>k. k \<in> set (keys_of other on)) (keys_of one on)).
                \<exists>b. compare_cell pf one_indexed other_indexed number_mode number_tolerance
                       ignore_case c k idx = Inr b)
          \<and> (\<forall>idx \<in> set (takeWhile (\<lambda>idx. idx \<noteq> map r on)
                             (filter (\<lambda>k. k \<in> set (keys_of other on)) (keys_of one on))).
                \<exists>b. compare_cell pf one_indexed other_indexed number_mode number_tolerance
                       ignore_case col NumberComparator idx = Inr b)
          \<longrightarrow> (\<exists>e'. init pf one other on (Some s) number_mode number_tolerance ignore_case = Inl e'
                   \<and> (e' = ValueError \<or> e' = TypeError \<or> e' = OverflowError)))"
proof -
  let ?ci = "filter (\<lambda>k. k \<in> set (keys_of other on)) (keys_of one on)"
  let ?idx = "map r on"
  let ?cell = "compare_cell pf one_indexed other_indexed number_mode number_tolerance ignore_case"
  note frames = prepare_data_Inr [OF prep]
  have ix: "index one_indexed = keys_of one on" "index other_indexed = keys_of other on"
    by (simp_all add: frames index_def keys_of_def comp_def)
  have col_s: "col \<in> set s"
    using cls by (auto dest: set_zip_leftD)
  have in_other: "?idx \<in> set (keys_of other on)"
    using row by (auto simp: keys_of_def)
  have in_ci: "?idx \<in> set ?ci"
    using common in_other by simp
  from common obtain r1 where r1: "r1 \<in> set (rows one)" "map r1 on = ?idx"
    by (auto simp: keys_of_def)
  have at_one: "df_at one_indexed ?idx col = [r1 col]"
    using df_at_unique [OF _ ds r1(1) col_s, of on] uniq r1(2)
    by (simp add: frames keys_of_def)
  have at_other: "df_at other_indexed ?idx col = [r col]"
    using df_at_unique [OF _ ds row col_s, of on] uniq_other
    by (simp add: frames keys_of_def)
  from number_compare_error(2) [OF bad, of "r1 col" number_mode number_tolerance]
  obtain e1 where e1: "number_compare pf (r1 col) (r col) number_mode number_tolerance = Inl e1"
    "e1 = ValueError \<or> e1 = TypeError \<or> e1 = OverflowError"
    by blast
  have cell: "?cell col NumberComparator ?idx = Inl e1"
    using in_other by (simp add: compare_cell_def at_one at_other ix e1(1))
  have run: "init pf one other on (Some s) number_mode number_tolerance ignore_case
               = (case traverse (\<lambda>(c, k). traverse (?cell c k) ?ci) (zip s comparators) of
                    Inl e \<Rightarrow> Inl e
                  | Inr cols \<Rightarrow>
                      Inr \<lparr>self_on = on, self_subset = s, self_one_indexed = one_indexed,
                           self_other_indexed = other_indexed, self_comparators = comparators,
                           self_comparison = (?ci, cols),
                           self_mask = map (\<lambda>j. list_all (\<lambda>c. c ! j) cols) [0..<length ?ci]\<rparr>)"
    using ne chk
    by (simp add: init_def prep comps df_compare_def Let_def ix loc_mask_isin split: sum.splits)
  have abort: "\<exists>e'. init pf one other on (Some s) number_mode number_tolerance ignore_case = Inl e'"
  proof (cases "traverse (\<lambda>(c, k). traverse (?cell c k) ?ci) (zip s comparators)")
    case (Inl e')
    with run show ?thesis by simp
  next
    case (Inr cols)
    from traverse_Inr_member [OF Inr cls] obtain c where "traverse (?cell col NumberComparator) ?ci = Inr c"
      by auto
    from traverse_Inr_member [OF this in_ci] cell show ?thesis by auto
  qed
  have first: "\<exists>e'. init pf one other on (Some s) number_mode number_tolerance ignore_case = Inl e'
                   \<and> (e' = ValueError \<or> e' = TypeError \<or> e' = OverflowError)"
    if cols_before: "\<forall>(c, k) \<in> set (takeWhile (\<lambda>(c, k). c \<noteq> col) (zip s comparators)).
                       \<forall>idx \<in> set ?ci. \<exists>b. ?cell c k idx = Inr b"
      and rows_before: "\<forall>idx \<in> set (takeWhile (\<lambda>idx. idx \<noteq> ?idx) ?ci).
                          \<exists>b. ?cell col NumberComparator idx = Inr b"
  proof -
    have inner: "traverse (?cell col NumberComparator) ?ci = Inl e1"
    proof (rule traverse_first_error [where P = "\<lambda>idx. idx \<noteq> ?idx" and y = ?idx])
      show "?idx \<in> set ?ci" by (rule in_ci)
      show "\<not> ?idx \<noteq> ?idx" by simp
      show "?cell col NumberComparator x = Inl e1" if "\<not> x \<noteq> ?idx" for x
        using that cell by simp
      show "\<exists>b. ?cell col NumberComparator x = Inr b"
        if "x \<in> set (takeWhile (\<lambda>idx. idx \<noteq> ?idx) ?ci)" for x
        using that rows_before by blast
    qed
    have dz: "distinct (map fst (zip s comparators))"
      using ds by (simp add: map_fst_zip_take distinct_take)
    have outer: "traverse (\<lambda>(c, k). traverse (?cell c k) ?ci) (zip s comparators) = Inl e1"
    proof (rule traverse_first_error [where P = "\<lambda>(c, k). c \<noteq> col" and y = "(col, NumberComparator)"])
      show "(col, NumberComparator) \<in> set (zip s comparators)" by (rule cls)
      show "\<not> (case (col, NumberComparator) of (c, k) \<Rightarrow> c \<noteq> col)" by simp
      show "(case x of (c, k) \<Rightarrow> traverse (?cell c k) ?ci) = Inl e1"
        if "x \<in> set (zip s comparators)" and "\<not> (case x of (c, k) \<Rightarrow> c \<noteq> col)" for x
      proof -
        from that(2) obtain k where x: "x = (col, k)" by (cases x) auto
        with that(1) cls dz have "k = NumberComparator"
          by (metis eq_key_imp_eq_value)
        with x inner show ?thesis by simp
      qed
      show "\<exists>b. (case x of (c, k) \<Rightarrow> traverse (?cell c k) ?ci) = Inr b"
        if "x \<in> set (takeWhile (\<lambda>(c, k). c \<noteq> col) (zip s comparators))" for x
      proof -
        obtain c k where x: "x = (c, k)" by (cases x)
        with that cols_before have "\<And>idx. idx \<in> set ?ci \<Longrightarrow> \<exists>b. ?cell c k idx = Inr b"
          by blast
        from traverse_Inr_ex [of ?ci "?cell c k", OF this] x show ?thesis by simp
      qed
    qed
    with run e1(2) show ?thesis by simp
  qed
  from py_float_error [OF bad] number_compare_error [OF bad] abort first
  show ?thesis by blast
qed

theorem numeric_drift_aborts_witness:
  "[''Name'', ''Age''] \<noteq> [] \<and> distinct [''Name'', ''Age'']
   \<and> check_subset (columns df1) (columns df2_drift) [''ID''] [''Name'', ''Age''] = Inr ()
   \<and> prepare_data df1 df2_drift [''ID''] [''Name'', ''Age'']
       = Inr (map (\<lambda>r. (map r [''ID''], map (\<lambda>c. (c, r c)) [''Name'', ''Age''])) (rows df1),
              map (\<lambda>r. (map r [''ID''], map (\<lambda>c. (c, r c)) [''Name'', ''Age''])) (rows df2_drift))
   \<and> prepare_comparators sample_parser
         (map (\<lambda>r. (map r [''ID''], map (\<lambda>c. (c, r c)) [''Name'', ''Age''])) (rows df1))
         [''Name'', ''Age''] = Inr [StringComparator, NumberComparator]
   \<and> (''Age'', NumberComparator)
         \<in> set (zip [''Name'', ''Age''] [StringComparator, NumberComparator])
   \<and> distinct (keys_of df1 [''ID'']) \<and> distinct (keys_of df2_drift [''ID''])
   \<and> rows df2_drift ! 1 \<in> set (rows df2_drift)
   \<and> map (rows df2_drift ! 1) [''ID''] \<in> set (keys_of df1 [''ID''])
   \<and> py_float sample_parser ((rows df2_drift ! 1) ''Age'') = Inl ValueError
   \<and> number_compare sample_parser ((rows df2_drift ! 1) ''Age'') (Num (Fin 35)) ''absolute'' (1 / 1024)
       = Inl ValueError
   \<and> (\<exists>e'. init sample_parser df1 df2_drift [''ID''] (Some [''Name'', ''Age''])
                ''absolute'' (1 / 1024) False = Inl e'
           \<and> (e' = ValueError \<or> e' = TypeError \<or> e' = OverflowError))"
proof -
  let ?F1 = "map (\<lambda>r. (map r [''ID''], map (\<lambda>c. (c, r c)) [''Name'', ''Age''])) (rows df1)"
  let ?F2 = "map (\<lambda>r. (map r [''ID''], map (\<lambda>c. (c, r c)) [''Name'', ''Age''])) (rows df2_drift)"
  let ?r = "rows df2_drift ! 1"
  let ?cell = "compare_cell sample_parser ?F1 ?F2 ''absolute'' (1 / 1024) False"
  let ?ci = "filter (\<lambda>k. k \<in> set (keys_of df2_drift [''ID''])) (keys_of df1 [''ID''])"
  have ne: "[''Name'', ''Age''] \<noteq> []" by simp
  have ds: "distinct [''Name'', ''Age'']" by simp
  have chk: "check_subset (columns df1) (columns df2_drift) [''ID''] [''Name'', ''Age''] = Inr ()"
    by (simp add: check_subset_def df1_def df2_drift_def)
  have prep: "prepare_data df1 df2_drift [''ID''] [''Name'', ''Age''] = Inr (?F1, ?F2)"
    by (simp add: prepare_data_def set_index_select_def df1_def df2_drift_def)
  have comps: "prepare_comparators sample_parser ?F1 [''Name'', ''Age'']
                 = Inr [StringComparator, NumberComparator]"
    by (simp add: prepare_comparators_def classify_def column_values_def df1_def row_of_def
          sample_parser_def)
  have cls: "(''Age'', NumberComparator)
               \<in> set (zip [''Name'', ''Age''] [StringComparator, NumberComparator])"
    by simp
  have uniq: "distinct (keys_of df1 [''ID''])"
    by (simp add: keys_of_def df1_def row_of_def)
  have uniq_other: "distinct (keys_of df2_drift [''ID''])"
    by (simp add: keys_of_def df2_drift_def row_of_def)
  have row: "?r \<in> set (rows df2_drift)"
    by (simp add: df2_drift_def)
  have common: "map ?r [''ID''] \<in> set (keys_of df1 [''ID''])"
    by (simp add: keys_of_def df1_def df2_drift_def row_of_def)
  have bad: "py_float sample_parser (?r ''Age'') = Inl ValueError"
    by (simp add: df2_drift_def row_of_def sample_parser_def)
  have cols_before:
    "\<forall>(c, k) \<in> set (takeWhile (\<lambda>(c, k). c \<noteq> ''Age'')
                         (zip [''Name'', ''Age''] [StringComparator, NumberComparator])).
       \<forall>idx \<in> set ?ci. \<exists>b. ?cell c k idx = Inr b"
    by (simp add: model_defs df1_def df2_drift_def) blast
  have rows_before:
    "\<forall>idx \<in> set (takeWhile (\<lambda>idx. idx \<noteq> map ?r [''ID'']) ?ci).
       \<exists>b. ?cell ''Age'' NumberComparator idx = Inr b"
    by (simp add: model_defs df1_def df2_drift_def) blast
  note inst = numeric_drift_aborts [OF ne ds chk prep comps cls uniq uniq_other row common bad,
      of "''absolute''" "1 / 1024" False]
  note cmp = inst [THEN conjunct2, THEN conjunct1, rule_format,
      of "Num (Fin 35)" "''absolute''" "1 / 1024", THEN conjunct1]
  note fin = inst [THEN conjunct2, THEN conjunct2, THEN conjunct2, rule_format,
      OF conjI [OF cols_before rows_before]]
  from ne ds chk prep comps cls uniq uniq_other row common bad cmp fin
  show ?thesis by (intro conjI)
qed

section \<open>Comparing a table with itself\<close>

lemma number_compare_self:
  assumes "py_float pf v = Inr (Fin x)" and "0 < tol"
  shows "number_compare pf v v mode tol = Inr True"
  using assms
  by (simp add: number_compare_def relatively_compare_def absolutely_compare_def
        fmax_def fdiv_def)

lemma string_compare_self:
  assumes "if ic then \<exists>str. v = Str str else v \<noteq> Num NaN"
  shows "string_compare v v ic = Inr True"
proof (cases v)
  case (Num f)
  with assms show ?thesis
    by (cases f) (auto simp: string_compare_def split: if_splits)
next
  case (Str s)
  with assms show ?thesis by (auto simp: string_compare_def split: if_splits)
next
  case PyNone
  with assms show ?thesis by (auto simp: string_compare_def split: if_splits)
qed

lemma label_test: "(\<lambda>(k, r). k = l) = (\<lambda>a. fst a = l)"
  by (simp add: fun_eq_iff)

lemma filter_unique_label:
  "distinct (map fst fr) \<Longrightarrow> x \<in> set fr \<Longrightarrow> filter (\<lambda>a. fst a = fst x) fr = [x]"
proof (induction fr)
  case Nil
  then show ?case by simp
next
  case (Cons y fr)
  show ?case
  proof (cases "x = y")
    case True
    have "fst y \<notin> fst ` set fr"
      using Cons.prems(1) by simp
    then have "filter (\<lambda>a. fst a = fst y) fr = []"
      by (auto simp: filter_empty_conv image_iff)
    with True show ?thesis by simp
  next
    case False
    with Cons.prems have "x \<in> set fr" by simp
    moreover from this Cons.prems(1) have "fst y \<noteq> fst x" by auto
    ultimately show ?thesis using Cons by simp
  qed
qed

lemma concat_labels:
  "distinct (map fst fr) \<Longrightarrow> set xs \<subseteq> set fr \<Longrightarrow>
     concat (map (\<lambda>l. filter (\<lambda>(k, r). k = l) fr) (map fst xs)) = xs"
  by (induction xs) (simp_all add: label_test filter_unique_label)

lemma loc_self: "distinct (index fr) \<Longrightarrow> loc fr (index fr) = Inr fr"
  using concat_labels [of fr fr] by (simp add: loc_def index_def)

lemma loc_mask_all_true:
  "length m = length ks \<Longrightarrow> \<forall>b \<in> set m. b \<Longrightarrow>
     loc_mask ks m = ks \<and> loc_mask ks (map Not m) = []"
  by (induction m ks rule: list_induct2) (auto simp: loc_mask_def)

lemma loc_mask_all_isin:
  "loc_mask fr (map Not (isin (index fr) (index fr))) = []"
proof -
  have "map Not (isin (index fr) (index fr)) = map (\<lambda>x. fst x \<notin> set (index fr)) fr"
    by (simp add: isin_def index_def)
  then show ?thesis
    by (simp add: loc_mask_map index_def filter_empty_conv)
qed

text \<open>
  C5, as the claim states it, fails: with tolerance 0, which is non-negative, no two
  numbers are equal under the strict comparison, not even a number and itself. The
  first sample table has unique keys, and compared with itself at tolerance 0 it has
  no row in \<^verbatim>\<open>rows_in_common\<close>.
\<close>

theorem self_comparison_counterexample:
  "distinct (keys_of df1 [''ID''])
   \<and> map_sum id rows_in_common
        (init sample_parser df1 df1 [''ID''] (Some [''Name'', ''Age'']) ''absolute'' 0 False)
       = Inr (Inr [])"
  by (simp add: model_defs df1_def)

text \<open>
  C5, amended. Take a table with unique keys and a configuration that passes
  \<^verbatim>\<open>_check_subset\<close> and names each compared column once, and let the columns be
  classified. Suppose that every cell of a column compared as numbers converts to a
  finite float (neither \<^verbatim>\<open>nan\<close> nor \<^verbatim>\<open>inf\<close>) and that the tolerance is strictly positive
  when there is such a cell, and that every cell of a column compared as strings is a
  string when \<^verbatim>\<open>ignore_case\<close> is set and is not \<^verbatim>\<open>nan\<close> otherwise. Then comparing the
  table with itself constructs, \<^verbatim>\<open>rows_deleted\<close>, \<^verbatim>\<open>rows_inserted\<close>,
  \<^verbatim>\<open>rows_before_update\<close> and \<^verbatim>\<open>rows_after_update\<close> are empty, and \<^verbatim>\<open>rows_in_common\<close>
  is the whole table, indexed by its keys and restricted to the compared columns.
\<close>

theorem self_comparison_unchanged:
  assumes ne: "s \<noteq> []" and ds: "distinct s"
      and chk: "check_subset (columns t) (columns t) on s = Inr ()"
      and uniq: "distinct (keys_of t on)"
      and comps: "prepare_comparators pf
                    (map (\<lambda>r. (map r on, map (\<lambda>c. (c, r c)) s)) (rows t)) s = Inr comparators"
      and cells: "\<forall>r \<in> set (rows t). \<forall>(c, cls) \<in> set (zip s comparators).
                    if cls = NumberComparator
                    then 0 < number_tolerance \<and> (\<exists>x. py_float pf (r c) = Inr (Fin x))
                    else if ignore_case then \<exists>str. r c = Str str else r c \<noteq> Num NaN"
  shows "\<exists>self. init pf t t on (Some s) number_mode number_tolerance ignore_case = Inr self
           \<and> rows_deleted self = []
           \<and> rows_inserted self = []
           \<and> rows_before_update self = Inr []
           \<and> rows_after_update self = Inr []
           \<and> rows_in_common self = Inr (self_one_indexed self)
           \<and> self_one_indexed self = map (\<lambda>r. (map r on, map (\<lambda>c. (c, r c)) s)) (rows t)"
proof -
  let ?fr = "map (\<lambda>r. (map r on, map (\<lambda>c. (c, r c)) s)) (rows t)"
  let ?ci = "index ?fr"
  let ?cols = "map (\<lambda>x. map (\<lambda>idx. True) ?ci) (zip s comparators)"
  let ?m = "map (\<lambda>j. list_all (\<lambda>c. c ! j) ?cols) [0..<length ?ci]"
  let ?self = "\<lparr>self_on = on, self_subset = s, self_one_indexed = ?fr,
                 self_other_indexed = ?fr, self_comparators = comparators,
                 self_comparison = (?ci, ?cols), self_mask = ?m\<rparr>"
  let ?cell = "compare_cell pf ?fr ?fr number_mode number_tolerance ignore_case"
  note cs = check_subset_Inr [OF chk]
  have ix: "?ci = keys_of t on"
    by (simp add: index_def keys_of_def comp_def)
  have dist: "distinct ?ci"
    using uniq by (simp only: ix)
  have prep: "prepare_data t t on s = Inr (?fr, ?fr)"
    using cs by (simp add: prepare_data_def set_index_select_def)
  have common: "loc_mask ?ci (isin ?ci ?ci) = ?ci"
    by (simp only: loc_mask_isin) simp
  have cell: "?cell c k idx = Inr True"
    if ck: "(c, k) \<in> set (zip s comparators)" and idx: "idx \<in> set ?ci" for c k idx
  proof -
    from idx obtain r where r: "r \<in> set (rows t)" "idx = map r on"
      by (auto simp: index_def)
    have c: "c \<in> set s"
      using ck by (auto dest: set_zip_leftD)
    have at: "df_at ?fr idx c = [r c]"
      unfolding r(2) using df_at_unique [OF _ ds r(1) c, of on] uniq
      by (simp add: keys_of_def)
    from cells r(1) ck have good:
      "if k = NumberComparator
       then 0 < number_tolerance \<and> (\<exists>x. py_float pf (r c) = Inr (Fin x))
       else if ignore_case then \<exists>str. r c = Str str else r c \<noteq> Num NaN"
      by blast
    have "(if k = NumberComparator then number_compare pf (r c) (r c) number_mode number_tolerance
           else string_compare (r c) (r c) ignore_case) = Inr True"
    proof (cases "k = NumberComparator")
      case True
      with good obtain x where "0 < number_tolerance" "py_float pf (r c) = Inr (Fin x)"
        by auto
      from number_compare_self [OF this(2,1)] True show ?thesis by simp
    next
      case False
      with good have "if ignore_case then \<exists>str. r c = Str str else r c \<noteq> Num NaN"
        by simp
      from string_compare_self [OF this] False show ?thesis by simp
    qed
    with idx show ?thesis
      unfolding compare_cell_def at by simp
  qed
  have inner: "(case x of (c, k) \<Rightarrow> traverse (?cell c k) ?ci) = Inr (map (\<lambda>idx. True) ?ci)"
    if "x \<in> set (zip s comparators)" for x
  proof -
    obtain c k where x: "x = (c, k)" by (cases x)
    with that have "\<And>idx. idx \<in> set ?ci \<Longrightarrow> ?cell c k idx = Inr True"
      by (simp add: cell)
    from traverse_all_Inr [of ?ci "?cell c k" "\<lambda>idx. True", OF this] x show ?thesis by simp
  qed
  have outer: "traverse (\<lambda>(c, k). traverse (?cell c k) ?ci) (zip s comparators) = Inr ?cols"
    by (rule traverse_all_Inr) (rule inner)
  have cmp: "df_compare pf ?fr ?fr s comparators number_mode number_tolerance ignore_case
               = Inr ((?ci, ?cols), ?m)"
    unfolding df_compare_def Let_def common outer by simp
  have ok: "init pf t t on (Some s) number_mode number_tolerance ignore_case = Inr ?self"
    using ne chk by (simp add: init_def prep comps cmp)
  have "\<forall>b \<in> set ?m. b"
    by (auto simp: list_all_iff)
  moreover have "length ?m = length ?ci"
    by simp
  ultimately have keep: "loc_mask ?ci ?m = ?ci" and drop: "loc_mask ?ci (map Not ?m) = []"
    using loc_mask_all_true [of ?m ?ci] by blast+
  have del: "rows_deleted ?self = []" and ins: "rows_inserted ?self = []"
    using loc_mask_all_isin [of ?fr] by (simp_all add: rows_deleted_def rows_inserted_def)
  have bef: "rows_before_update ?self = Inr []" and aft: "rows_after_update ?self = Inr []"
    using drop by (simp_all add: rows_before_update_def rows_after_update_def loc_def)
  have com: "rows_in_common ?self = Inr ?fr"
    using keep loc_self [OF dist] by (simp add: rows_in_common_def)
  show ?thesis
    using ok del ins bef aft com by (intro exI [of _ ?self]) simp
qed

theorem self_comparison_unchanged_witness:
  "[''Name'', ''Age''] \<noteq> [] \<and> distinct [''Name'', ''Age'']
   \<and> check_subset (columns df1) (columns df1) [''ID''] [''Name'', ''Age''] = Inr ()
   \<and> distinct (keys_of df1 [''ID''])
   \<and> prepare_comparators sample_parser
         (map (\<lambda>r. (map r [''ID''], map (\<lambda>c. (c, r c)) [''Name'', ''Age''])) (rows df1))
         [''Name'', ''Age''] = Inr [StringComparator, NumberComparator]
   \<and> (0::real) < 1 / 1024
   \<and> map (\<lambda>r. py_float sample_parser (r ''Age'')) (rows df1)
       = [Inr (Fin 25), Inr (Fin 30), Inr (Fin 35), Inr (Fin 40)]
   \<and> map (\<lambda>r. r ''Name'') (rows df1) = [Str ''Alice'', Str ''Bob'', Str ''Charlie'', Str ''David'']
   \<and> (\<exists>self. init sample_parser df1 df1 [''ID''] (Some [''Name'', ''Age''])
                 ''absolute'' (1 / 1024) False = Inr self
           \<and> rows_deleted self = []
           \<and> rows_inserted self = []
           \<and> rows_before_update self = Inr []
           \<and> rows_after_update self = Inr []
           \<and> rows_in_common self = Inr (self_one_indexed self)
           \<and> self_one_indexed self
               = map (\<lambda>r. (map r [''ID''], map (\<lambda>c. (c, r c)) [''Name'', ''Age''])) (rows df1))"
proof -
  have ne: "[''Name'', ''Age''] \<noteq> []" by simp
  have ds: "distinct [''Name'', ''Age'']" by simp
  have chk: "check_subset (columns df1) (columns df1) [''ID''] [''Name'', ''Age''] = Inr ()"
    by (simp add: check_subset_def df1_def)
  have uniq: "distinct (keys_of df1 [''ID''])"
    by (simp add: keys_of_def df1_def row_of_def)
  have comps: "prepare_comparators sample_parser
         (map (\<lambda>r. (map r [''ID''], map (\<lambda>c. (c, r c)) [''Name'', ''Age''])) (rows df1))
         [''Name'', ''Age''] = Inr [StringComparator, NumberComparator]"
    by (simp add: prepare_comparators_def classify_def column_values_def df1_def row_of_def
          sample_parser_def)
  have cells: "\<forall>r \<in> set (rows df1).
         \<forall>(c, cls) \<in> set (zip [''Name'', ''Age''] [StringComparator, NumberComparator]).
           if cls = NumberComparator
           then (0::real) < 1 / 1024 \<and> (\<exists>x. py_float sample_parser (r c) = Inr (Fin x))
           else if False then \<exists>str. r c = Str str else r c \<noteq> Num NaN"
    by (simp add: df1_def row_of_def sample_parser_def)
  have pos: "(0::real) < 1 / 1024" by simp
  have ages: "map (\<lambda>r. py_float sample_parser (r ''Age'')) (rows df1)
                = [Inr (Fin 25), Inr (Fin 30), Inr (Fin 35), Inr (Fin 40)]"
    by (simp add: df1_def row_of_def)
  have names: "map (\<lambda>r. r ''Name'') (rows df1)
                 = [Str ''Alice'', Str ''Bob'', Str ''Charlie'', Str ''David'']"
    by (simp add: df1_def row_of_def)
  note inst = self_comparison_unchanged [OF ne ds chk uniq comps cells, of "''absolute''"]
  from ne ds chk uniq comps pos ages names inst show ?thesis by (intro conjI)
qed

end
